theory Spec2Isabelle
  imports Main "HOL-Library.Multiset"
begin

section \<open>Python string primitives used by the record store\<close>

text \<open>
  \<^verbatim>\<open>sep.join(xs)\<close>: the elements of \<open>xs\<close> with \<open>sep\<close> between neighbours.
\<close>

fun str_join :: "string \<Rightarrow> string list \<Rightarrow> string" where
  "str_join sep [] = []"
| "str_join sep [x] = x"
| "str_join sep (x # y # ys) = x @ sep @ str_join sep (y # ys)"

text \<open>
  \<^verbatim>\<open>s.split(c)\<close> for a one-character separator: \<open>split_acc\<close> scans the string
  with the word read so far; the result always has one word more than there are
  separators, so the empty string splits into one empty word.
\<close>

fun split_acc :: "char \<Rightarrow> string \<Rightarrow> string \<Rightarrow> string list" where
  "split_acc sep w [] = [w]"
| "split_acc sep w (c # cs) =
     (if c = sep then w # split_acc sep [] cs else split_acc sep (w @ [c]) cs)"

definition str_split :: "char \<Rightarrow> string \<Rightarrow> string list" where
  "str_split sep s = split_acc sep [] s"

section \<open>bgpvpn\_db.py: the BGP VPN connection table\<close>

datatype bgpvpn_type = L2 | L3

text \<open>
  A row of table \<^verbatim>\<open>bgpvpn_connections\<close> (class \<^verbatim>\<open>BGPVPNConnection\<close>). The four
  route-target columns are strings; \<^verbatim>\<open>network_id\<close> is nullable.
\<close>

record BGPVPNConnection =
  conn_id :: string
  conn_tenant_id :: string
  conn_name :: string
  conn_type :: bgpvpn_type
  conn_route_targets :: string
  conn_import_targets :: string
  conn_export_targets :: string
  conn_route_distinguishers :: string
  conn_auto_aggregate :: bool
  conn_network_id :: "string option"

type_synonym table = "BGPVPNConnection list"

text \<open>
  The request body \<^verbatim>\<open>bgpvpn_connection['bgpvpn_connection']\<close>: a dict in which every
  key may be absent (\<open>None\<close> here). The value of \<^verbatim>\<open>network_id\<close> may itself be Python's
  \<^verbatim>\<open>None\<close>. The primary key \<^verbatim>\<open>id\<close> is generated at creation and is not a key of the
  body.
\<close>

record bgpvpn_conn =
  tenant_id :: "string option"
  name :: "string option"
  vpn_type :: "bgpvpn_type option"
  route_targets :: "string list option"
  import_targets :: "string list option"
  export_targets :: "string list option"
  route_distinguishers :: "string list option"
  auto_aggregate :: "bool option"
  network_id :: "string option option"

datatype db_exn =
    NoResultFound
  | MultipleResultsFound
  | BGPVPNConnectionNotFound string
  | BGPVPNConnectionMissingRouteTarget
  | KeyError string
  | TenantError string

text \<open>Values of the dicts handed back to the API layer.\<close>

datatype pyval = PyNone | PyStr string | PyBool bool | PyList "string list"

type_synonym pydict = "string \<rightharpoonup> pyval"

definition rtrd_list2str :: "string list \<Rightarrow> string" where
  "rtrd_list2str l = (if l = [] then [] else str_join '','' l)"

definition rtrd_str2list :: "string \<Rightarrow> string list" where
  "rtrd_str2list s = (if s = [] then [] else str_split CHR '','' s)"

text \<open>
  \<^verbatim>\<open>_fields(res, fields)\<close> of the plugin framework: with a non-empty field list the
  dict is restricted to those keys, otherwise it is returned whole.
\<close>

definition fields_proj :: "pydict \<Rightarrow> string list option \<Rightarrow> pydict" where
  "fields_proj res flds =
     (case flds of
        None \<Rightarrow> res
      | Some fs \<Rightarrow> if fs = [] then res else res |` set fs)"

definition type_str :: "bgpvpn_type \<Rightarrow> string" where
  "type_str t = (case t of L2 \<Rightarrow> ''l2'' | L3 \<Rightarrow> ''l3'')"

definition make_bgpvpn_connection_dict ::
  "BGPVPNConnection \<Rightarrow> string list option \<Rightarrow> pydict" where
  "make_bgpvpn_connection_dict r flds =
     fields_proj
       [''id'' \<mapsto> PyStr (conn_id r),
        ''tenant_id'' \<mapsto> PyStr (conn_tenant_id r),
        ''network_id'' \<mapsto> (case conn_network_id r of None \<Rightarrow> PyNone | Some n \<Rightarrow> PyStr n),
        ''name'' \<mapsto> PyStr (conn_name r),
        ''type'' \<mapsto> PyStr (type_str (conn_type r)),
        ''route_targets'' \<mapsto> PyList (rtrd_str2list (conn_route_targets r)),
        ''import_targets'' \<mapsto> PyList (rtrd_str2list (conn_import_targets r)),
        ''export_targets'' \<mapsto> PyList (rtrd_str2list (conn_export_targets r)),
        ''route_distinguishers'' \<mapsto> PyList (rtrd_str2list (conn_route_distinguishers r)),
        ''auto_aggregate'' \<mapsto> PyBool (conn_auto_aggregate r)]
       flds"

text \<open>
  \<^verbatim>\<open>_get_by_id(context, BGPVPNConnection, id)\<close> of the plugin framework: the query
  filtered by id, then \<^verbatim>\<open>.one()\<close>, which raises when there is no row or more than one.
\<close>

definition get_by_id :: "table \<Rightarrow> string \<Rightarrow> db_exn + BGPVPNConnection" where
  "get_by_id tbl i =
     (case filter (\<lambda>r. conn_id r = i) tbl of
        [] \<Rightarrow> Inl NoResultFound
      | [r] \<Rightarrow> Inr r
      | _ # _ # _ \<Rightarrow> Inl MultipleResultsFound)"

text \<open>\<^verbatim>\<open>_get_bgpvpn_connection\<close>: only \<^verbatim>\<open>NoResultFound\<close> is translated.\<close>

definition get_bgpvpn_connection_row :: "table \<Rightarrow> string \<Rightarrow> db_exn + BGPVPNConnection" where
  "get_bgpvpn_connection_row tbl i =
     (case get_by_id tbl i of
        Inl NoResultFound \<Rightarrow> Inl (BGPVPNConnectionNotFound i)
      | Inl e \<Rightarrow> Inl e
      | Inr r \<Rightarrow> Inr r)"

definition get_bgpvpn_connection ::
  "string \<Rightarrow> string list option \<Rightarrow> table \<Rightarrow> db_exn + pydict" where
  "get_bgpvpn_connection i flds tbl =
     (case get_bgpvpn_connection_row tbl i of
        Inl e \<Rightarrow> Inl e
      | Inr r \<Rightarrow> Inr (make_bgpvpn_connection_dict r flds))"

text \<open>
  \<^verbatim>\<open>bgpvpn_conn[key]\<close>: a missing key raises \<^verbatim>\<open>KeyError\<close>.
\<close>

definition getitem :: "string \<Rightarrow> 'a option \<Rightarrow> db_exn + 'a" where
  "getitem key v = (case v of None \<Rightarrow> Inl (KeyError key) | Some x \<Rightarrow> Inr x)"

text \<open>
  The row built inside the transaction of \<^verbatim>\<open>create_bgpvpn_connection\<close>; the keyword
  arguments are evaluated in the order written, so the first missing key is the one
  reported.
\<close>

definition new_row ::
  "string \<Rightarrow> string \<Rightarrow> string \<Rightarrow> string \<Rightarrow> string \<Rightarrow> string \<Rightarrow> bgpvpn_conn
     \<Rightarrow> db_exn + BGPVPNConnection" where
  "new_row uuid tenant rt i_rt e_rt rd c =
     (case getitem ''name'' (name c) of Inl e \<Rightarrow> Inl e | Inr n \<Rightarrow>
      (case getitem ''type'' (vpn_type c) of Inl e \<Rightarrow> Inl e | Inr t \<Rightarrow>
       (case getitem ''network_id'' (network_id c) of Inl e \<Rightarrow> Inl e | Inr net \<Rightarrow>
        (case getitem ''auto_aggregate'' (auto_aggregate c) of Inl e \<Rightarrow> Inl e | Inr agg \<Rightarrow>
           Inr \<lparr>conn_id = uuid, conn_tenant_id = tenant, conn_name = n, conn_type = t,
                conn_route_targets = rt, conn_import_targets = i_rt,
                conn_export_targets = e_rt, conn_route_distinguishers = rd,
                conn_auto_aggregate = agg, conn_network_id = net\<rparr>))))"

text \<open>
  \<^verbatim>\<open>create_bgpvpn_connection\<close>. The two collaborators outside the module are
  parameters: \<open>tenant_for_create\<close> is \<^verbatim>\<open>_get_tenant_id_for_create(context, .)\<close>, which
  may raise, and \<open>uuid\<close> is the value \<^verbatim>\<open>uuidutils.generate_uuid()\<close> returns. The result
  pairs the outcome with the table after the call, so that a failure which wrote
  nothing is visible as an unchanged table.
\<close>

definition create_bgpvpn_connection ::
  "(bgpvpn_conn \<Rightarrow> db_exn + string) \<Rightarrow> string \<Rightarrow> bgpvpn_conn \<Rightarrow> table
     \<Rightarrow> (db_exn + pydict) \<times> table" where
  "create_bgpvpn_connection tenant_for_create uuid c tbl =
     (case getitem ''route_targets'' (route_targets c) of
        Inl e \<Rightarrow> (Inl e, tbl)
      | Inr rts \<Rightarrow>
          if rts = [] then (Inl BGPVPNConnectionMissingRouteTarget, tbl)
          else
            (case getitem ''import_targets'' (import_targets c) of
               Inl e \<Rightarrow> (Inl e, tbl)
             | Inr its \<Rightarrow>
                (case getitem ''export_targets'' (export_targets c) of
                   Inl e \<Rightarrow> (Inl e, tbl)
                 | Inr ets \<Rightarrow>
                    (let rt = rtrd_list2str rts;
                         i_rt = rtrd_list2str its;
                         e_rt = rtrd_list2str ets;
                         rd = (case route_distinguishers c of
                                 None \<Rightarrow> []
                               | Some rds \<Rightarrow> rtrd_list2str rds)
                     in case tenant_for_create c of
                          Inl e \<Rightarrow> (Inl e, tbl)
                        | Inr tenant \<Rightarrow>
                            (case new_row uuid tenant rt i_rt e_rt rd c of
                               Inl e \<Rightarrow> (Inl e, tbl)
                             | Inr row \<Rightarrow>
                                 (Inr (make_bgpvpn_connection_dict row None),
                                  tbl @ [row]))))))"

text \<open>\<^verbatim>\<open>if bgpvpn_conn:\<close> is false for the dict without keys.\<close>

definition is_empty_dict :: "bgpvpn_conn \<Rightarrow> bool" where
  "is_empty_dict c \<longleftrightarrow>
     tenant_id c = None \<and> name c = None \<and> vpn_type c = None \<and> route_targets c = None \<and>
     import_targets c = None \<and> export_targets c = None \<and> route_distinguishers c = None \<and>
     auto_aggregate c = None \<and> network_id c = None"

text \<open>\<^verbatim>\<open>setattr\<close> of one column when its key is in the dict.\<close>

definition set_if_present :: "'a option \<Rightarrow> 'a \<Rightarrow> 'a" where
  "set_if_present v old = (case v of None \<Rightarrow> old | Some x \<Rightarrow> x)"

text \<open>
  The body of \<^verbatim>\<open>if bgpvpn_conn:\<close> in \<^verbatim>\<open>update_bgpvpn_connection\<close>: each route-target
  list in the dict is replaced by its string, then \<^verbatim>\<open>bgpvpn_connection_db.update\<close>
  sets every key of the dict on the row.
\<close>

definition row_update :: "BGPVPNConnection \<Rightarrow> bgpvpn_conn \<Rightarrow> BGPVPNConnection" where
  "row_update r c =
     r\<lparr>conn_tenant_id := set_if_present (tenant_id c) (conn_tenant_id r),
       conn_name := set_if_present (name c) (conn_name r),
       conn_type := set_if_present (vpn_type c) (conn_type r),
       conn_route_targets :=
         set_if_present (map_option rtrd_list2str (route_targets c)) (conn_route_targets r),
       conn_import_targets :=
         set_if_present (map_option rtrd_list2str (import_targets c)) (conn_import_targets r),
       conn_export_targets :=
         set_if_present (map_option rtrd_list2str (export_targets c)) (conn_export_targets r),
       conn_route_distinguishers :=
         set_if_present (map_option rtrd_list2str (route_distinguishers c))
           (conn_route_distinguishers r),
       conn_auto_aggregate := set_if_present (auto_aggregate c) (conn_auto_aggregate r),
       conn_network_id := set_if_present (network_id c) (conn_network_id r)\<rparr>"

definition update_bgpvpn_connection ::
  "string \<Rightarrow> bgpvpn_conn \<Rightarrow> table \<Rightarrow> (db_exn + pydict) \<times> table" where
  "update_bgpvpn_connection i c tbl =
     (case get_bgpvpn_connection_row tbl i of
        Inl e \<Rightarrow> (Inl e, tbl)
      | Inr r \<Rightarrow>
          (let r' = (if is_empty_dict c then r else row_update r c)
           in (Inr (make_bgpvpn_connection_dict r' None),
               map (\<lambda>x. if conn_id x = i then r' else x) tbl)))"

text \<open>
  \<^verbatim>\<open>delete_bgpvpn_connection\<close> looks the row up with \<^verbatim>\<open>_get_by_id\<close> directly and
  returns the row object itself.
\<close>

definition delete_bgpvpn_connection ::
  "string \<Rightarrow> table \<Rightarrow> (db_exn + BGPVPNConnection) \<times> table" where
  "delete_bgpvpn_connection i tbl =
     (case get_by_id tbl i of
        Inl e \<Rightarrow> (Inl e, tbl)
      | Inr r \<Rightarrow> (Inr r, filter (\<lambda>x. conn_id x \<noteq> i) tbl))"

section \<open>workflows.py: reconciling the associations of a BGP VPN\<close>

text \<open>
  \<^verbatim>\<open>association_type\<close> is one of the strings \<^verbatim>\<open>'router'\<close> and \<^verbatim>\<open>'network'\<close>; it
  selects the functions \<^verbatim>\<open><type>_association_list/create/delete\<close> of the API module
  and the attribute \<^verbatim>\<open><type>_id\<close> of an association.
\<close>

datatype association_type = Router | Network

definition type_name :: "association_type \<Rightarrow> string" where
  "type_name ty = (case ty of Router \<Rightarrow> ''router'' | Network \<Rightarrow> ''network'')"

text \<open>
  A raised exception: its class name and \<^verbatim>\<open>str(e)\<close>. \<open>Exn\<close> is an instance of
  \<^verbatim>\<open>Exception\<close>, the class every \<^verbatim>\<open>except\<close> clause of the module names. \<open>BaseExn\<close> is
  an exception that derives from \<^verbatim>\<open>BaseException\<close> but not from \<^verbatim>\<open>Exception\<close>
  (\<^verbatim>\<open>KeyboardInterrupt\<close>, \<^verbatim>\<open>SystemExit\<close>, \<^verbatim>\<open>GeneratorExit\<close>), which those clauses do
  not catch.
\<close>

datatype exn =
    is_Exception: Exn (exn_class: string) (exn_str: string)
  | BaseExn (exn_class: string) (exn_str: string)

definition key_error :: "string \<Rightarrow> exn" where
  "key_error k = Exn ''KeyError'' ([CHR 0x27] @ k @ [CHR 0x27])"

text \<open>
  An association object as the API returns it: its \<^verbatim>\<open>id\<close> and the attribute
  \<^verbatim>\<open><type>_id\<close>, the router or network it links to the VPN.
\<close>

record association =
  asso_id :: string
  resource_id :: string

text \<open>The workflow context \<^verbatim>\<open>data\<close>, a dict; \<open>None\<close> is an absent key.\<close>

record workflow_data =
  bgpvpn_id :: "string option"
  networks_association :: "string list option"
  routers_association :: "string list option"

text \<open>
  The collaborators, over a world \<open>'w\<close> they may read and change. Each returns
  normally or raises, and leaves a world behind in both cases:
  \<^item> \<open>association_list ty bgpvpn_id\<close> is \<^verbatim>\<open><type>_association_list(request, bgpvpn_id)\<close>;
  \<^item> \<open>association_create ty bgpvpn_id params\<close> is
    \<^verbatim>\<open><type>_association_create(request, bgpvpn_id, **params)\<close>;
  \<^item> \<open>association_delete ty asso_id bgpvpn_id\<close> is
    \<^verbatim>\<open><type>_association_delete(request, asso_id, bgpvpn_id)\<close>;
  \<^item> \<open>exceptions_handle msg e\<close> is the dashboard framework's
    \<^verbatim>\<open>exceptions.handle(request, msg)\<close> called while \<open>e\<close> is being handled.
\<close>

record 'w api =
  association_list :: "association_type \<Rightarrow> string \<Rightarrow> 'w \<Rightarrow> (exn + association list) \<times> 'w"
  association_create ::
    "association_type \<Rightarrow> string \<Rightarrow> (string \<times> string) list \<Rightarrow> 'w \<Rightarrow> (exn + unit) \<times> 'w"
  association_delete :: "association_type \<Rightarrow> string \<Rightarrow> string \<Rightarrow> 'w \<Rightarrow> (exn + unit) \<times> 'w"
  exceptions_handle :: "string \<Rightarrow> exn \<Rightarrow> 'w \<Rightarrow> (exn + unit) \<times> 'w"

text \<open>The calls issued to the association API, in the order they are made.\<close>

datatype call =
    ListCall association_type string
  | CreateCall association_type string "(string \<times> string) list"
  | DeleteCall association_type string string

fun is_create :: "call \<Rightarrow> bool" where
  "is_create (CreateCall ty b ps) = True"
| "is_create c = False"

fun is_delete :: "call \<Rightarrow> bool" where
  "is_delete (DeleteCall ty a b) = True"
| "is_delete c = False"

fun is_list :: "call \<Rightarrow> bool" where
  "is_list (ListCall ty b) = True"
| "is_list c = False"

record 'w state =
  world :: 'w
  calls :: "call list"

definition list_method ::
  "'w api \<Rightarrow> association_type \<Rightarrow> string \<Rightarrow> 'w state \<Rightarrow> (exn + association list) \<times> 'w state" where
  "list_method a ty bid s =
     (case association_list a ty bid (world s) of
        (r, w) \<Rightarrow> (r, \<lparr>world = w, calls = calls s @ [ListCall ty bid]\<rparr>))"

definition create_asso ::
  "'w api \<Rightarrow> association_type \<Rightarrow> string \<Rightarrow> (string \<times> string) list \<Rightarrow> 'w state
     \<Rightarrow> (exn + unit) \<times> 'w state" where
  "create_asso a ty bid params s =
     (case association_create a ty bid params (world s) of
        (r, w) \<Rightarrow> (r, \<lparr>world = w, calls = calls s @ [CreateCall ty bid params]\<rparr>))"

definition delete_method ::
  "'w api \<Rightarrow> association_type \<Rightarrow> string \<Rightarrow> string \<Rightarrow> 'w state \<Rightarrow> (exn + unit) \<times> 'w state" where
  "delete_method a ty aid bid s =
     (case association_delete a ty aid bid (world s) of
        (r, w) \<Rightarrow> (r, \<lparr>world = w, calls = calls s @ [DeleteCall ty aid bid]\<rparr>))"

text \<open>
  Every \<^verbatim>\<open>except Exception:\<close> clause of \<^verbatim>\<open>_handle_type\<close>, for the exception \<open>e\<close>
  raised in its \<^verbatim>\<open>try\<close> block. An exception that is not an instance of \<^verbatim>\<open>Exception\<close>
  is not caught and leaves the block as it is. For a caught one the block runs
  \<^verbatim>\<open>exceptions.handle(request, error_msg)\<close>, then \<^verbatim>\<open>raise\<close>: if the framework's handler
  raises, that exception leaves the block; if it returns, the caught one is re-raised.
\<close>

definition handle_and_raise ::
  "'w api \<Rightarrow> string \<Rightarrow> exn \<Rightarrow> 'w state \<Rightarrow> (exn + unit) \<times> 'w state" where
  "handle_and_raise a msg e s =
     (if is_Exception e then
        (case exceptions_handle a msg e (world s) of
           (Inl e', w) \<Rightarrow> (Inl e', s\<lparr>world := w\<rparr>)
         | (Inr u, w) \<Rightarrow> (Inl e, s\<lparr>world := w\<rparr>))
      else (Inl e, s))"

definition retrieve_msg :: "association_type \<Rightarrow> string" where
  "retrieve_msg ty =
     (case ty of
        Router \<Rightarrow> ''Unable to retrieve router associations''
      | Network \<Rightarrow> ''Unable to retrieve network associations'')"

definition associate_msg :: "association_type \<Rightarrow> string \<Rightarrow> exn \<Rightarrow> string" where
  "associate_msg ty resource e =
     (case ty of
        Router \<Rightarrow> ''Unable to associate router '' @ resource @ '': '' @ exn_str e
      | Network \<Rightarrow> ''Unable to associate network '' @ resource @ '': '' @ exn_str e)"

definition disassociate_msg :: "association_type \<Rightarrow> string" where
  "disassociate_msg ty =
     (case ty of
        Router \<Rightarrow> ''Unable to disassociate router''
      | Network \<Rightarrow> ''Unable to disassociate network'')"

text \<open>
  \<^verbatim>\<open>list(set(xs) - set(ys))\<close>. A Python set has no duplicates and iterates in an order
  of its own; \<open>ord\<close> is that order, a rearrangement of the elements.
\<close>

definition set_minus_list ::
  "(string list \<Rightarrow> string list) \<Rightarrow> string list \<Rightarrow> string list \<Rightarrow> string list" where
  "set_minus_list ord xs ys = ord (remdups (filter (\<lambda>x. x \<notin> set ys) xs))"

definition is_iteration_order :: "(string list \<Rightarrow> string list) \<Rightarrow> bool" where
  "is_iteration_order ord \<longleftrightarrow> (\<forall>zs. mset (ord zs) = mset zs)"

definition to_remove_associations ::
  "(string list \<Rightarrow> string list) \<Rightarrow> string list \<Rightarrow> string list \<Rightarrow> string list" where
  "to_remove_associations ord old_associations associations =
     set_minus_list ord old_associations associations"

definition to_add_associations ::
  "(string list \<Rightarrow> string list) \<Rightarrow> string list \<Rightarrow> string list \<Rightarrow> string list" where
  "to_add_associations ord old_associations associations =
     set_minus_list ord associations old_associations"

definition set_params :: "association_type \<Rightarrow> string \<Rightarrow> (string \<times> string) list" where
  "set_params ty resource = [(type_name ty @ ''_id'', resource)]"

text \<open>
  The loop over \<^verbatim>\<open>to_add_associations\<close>: the first create that raises ends
  \<^verbatim>\<open>_handle_type\<close>; what was created before stays.
\<close>

fun add_associations ::
  "'w api \<Rightarrow> association_type \<Rightarrow> string \<Rightarrow> string list \<Rightarrow> 'w state \<Rightarrow> (exn + unit) \<times> 'w state" where
  "add_associations a ty bid [] s = (Inr (), s)"
| "add_associations a ty bid (resource # rest) s =
     (case create_asso a ty bid (set_params ty resource) s of
        (Inl e, s') \<Rightarrow> handle_and_raise a (associate_msg ty resource e) e s'
      | (Inr u, s') \<Rightarrow> add_associations a ty bid rest s')"

text \<open>
  The inner loop of the removal phase, over the list fetched again: every
  association of the resource is deleted (there is no \<^verbatim>\<open>break\<close>).
\<close>

fun delete_matching ::
  "'w api \<Rightarrow> association_type \<Rightarrow> string \<Rightarrow> string \<Rightarrow> association list \<Rightarrow> 'w state
     \<Rightarrow> (exn + unit) \<times> 'w state" where
  "delete_matching a ty bid resource [] s = (Inr (), s)"
| "delete_matching a ty bid resource (x # xs) s =
     (if resource_id x = resource then
        (case delete_method a ty (asso_id x) bid s of
           (Inl e, s') \<Rightarrow> (Inl e, s')
         | (Inr u, s') \<Rightarrow> delete_matching a ty bid resource xs s')
      else delete_matching a ty bid resource xs s)"

text \<open>The body of the loop over \<^verbatim>\<open>to_remove_associations\<close>, one \<^verbatim>\<open>try\<close> block.\<close>

definition remove_resource ::
  "'w api \<Rightarrow> association_type \<Rightarrow> string \<Rightarrow> string \<Rightarrow> 'w state \<Rightarrow> (exn + unit) \<times> 'w state" where
  "remove_resource a ty bid resource s =
     (case (case list_method a ty bid s of
              (Inl e, s1) \<Rightarrow> (Inl e, s1)
            | (Inr asso_list, s1) \<Rightarrow> delete_matching a ty bid resource asso_list s1) of
        (Inl e, s2) \<Rightarrow> handle_and_raise a (disassociate_msg ty) e s2
      | (Inr u, s2) \<Rightarrow> (Inr (), s2))"

fun remove_associations ::
  "'w api \<Rightarrow> association_type \<Rightarrow> string \<Rightarrow> string list \<Rightarrow> 'w state \<Rightarrow> (exn + unit) \<times> 'w state" where
  "remove_associations a ty bid [] s = (Inr (), s)"
| "remove_associations a ty bid (resource # rest) s =
     (case remove_resource a ty bid resource s of
        (Inl e, s') \<Rightarrow> (Inl e, s')
      | (Inr u, s') \<Rightarrow> remove_associations a ty bid rest s')"

definition data_associations :: "workflow_data \<Rightarrow> association_type \<Rightarrow> string list option" where
  "data_associations d ty =
     (case ty of Router \<Rightarrow> routers_association d | Network \<Rightarrow> networks_association d)"

text \<open>
  \<^verbatim>\<open>_handle_type\<close>. \<^verbatim>\<open>data\<close> is not written to, so \<^verbatim>\<open>data['bgpvpn_id']\<close> has the
  same value at every call; it is looked up where the source first does, inside the
  first \<^verbatim>\<open>try\<close>.
\<close>

definition handle_type ::
  "'w api \<Rightarrow> (string list \<Rightarrow> string list) \<Rightarrow> workflow_data \<Rightarrow> association_type \<Rightarrow> 'w state
     \<Rightarrow> (exn + unit) \<times> 'w state" where
  "handle_type a ord d ty s =
     (case data_associations d ty of
        None \<Rightarrow> (Inl (key_error (type_name ty @ ''s_association'')), s)
      | Some associations \<Rightarrow>
         (case bgpvpn_id d of
            None \<Rightarrow> handle_and_raise a (retrieve_msg ty) (key_error ''bgpvpn_id'') s
          | Some bid \<Rightarrow>
             (case list_method a ty bid s of
                (Inl e, s1) \<Rightarrow> handle_and_raise a (retrieve_msg ty) e s1
              | (Inr asso_list, s1) \<Rightarrow>
                 (let old_associations = map resource_id asso_list;
                      to_remove = to_remove_associations ord old_associations associations;
                      to_add = to_add_associations ord old_associations associations
                  in case (if length to_add > 0
                           then add_associations a ty bid to_add s1
                           else (Inr (), s1)) of
                       (Inl e, s2) \<Rightarrow> (Inl e, s2)
                     | (Inr u, s2) \<Rightarrow>
                         (if length to_remove > 0
                          then remove_associations a ty bid to_remove s2
                          else (Inr (), s2))))))"

text \<open>
  The \<^verbatim>\<open>try\<close> body of \<^verbatim>\<open>handle\<close>; its value is the flag \<^verbatim>\<open>action\<close> after the two
  tests, and the last statement raises when the flag is still false.
\<close>

definition handle_networks ::
  "'w api \<Rightarrow> (string list \<Rightarrow> string list) \<Rightarrow> workflow_data \<Rightarrow> 'w state
     \<Rightarrow> (exn + bool) \<times> 'w state" where
  "handle_networks a ord d s =
     (if networks_association d \<noteq> None then
        (case handle_type a ord d Network s of
           (Inl e, s1) \<Rightarrow> (Inl e, s1)
         | (Inr u, s1) \<Rightarrow> (Inr True, s1))
      else (Inr False, s))"

definition handle_routers ::
  "'w api \<Rightarrow> (string list \<Rightarrow> string list) \<Rightarrow> workflow_data \<Rightarrow> bool \<Rightarrow> 'w state
     \<Rightarrow> (exn + bool) \<times> 'w state" where
  "handle_routers a ord d action s =
     (if routers_association d \<noteq> None then
        (case handle_type a ord d Router s of
           (Inl e, s1) \<Rightarrow> (Inl e, s1)
         | (Inr u, s1) \<Rightarrow> (Inr True, s1))
      else (Inr action, s))"

definition handle_try ::
  "'w api \<Rightarrow> (string list \<Rightarrow> string list) \<Rightarrow> workflow_data \<Rightarrow> 'w state
     \<Rightarrow> (exn + unit) \<times> 'w state" where
  "handle_try a ord d s =
     (case handle_networks a ord d s of
        (Inl e, s1) \<Rightarrow> (Inl e, s1)
      | (Inr action, s1) \<Rightarrow>
         (case handle_routers a ord d action s1 of
            (Inl e, s2) \<Rightarrow> (Inl e, s2)
          | (Inr action', s2) \<Rightarrow>
              if \<not> action'
              then (Inl (Exn ''Exception'' ''Associations type is not supported''), s2)
              else (Inr (), s2)))"

text \<open>
  \<^verbatim>\<open>handle\<close>: \<^verbatim>\<open>except Exception: return False\<close> around the body, \<^verbatim>\<open>return True\<close>
  after it. The clause catches the instances of \<^verbatim>\<open>Exception\<close>; any other exception
  raised in the body leaves \<^verbatim>\<open>handle\<close>.
\<close>

definition handle ::
  "'w api \<Rightarrow> (string list \<Rightarrow> string list) \<Rightarrow> workflow_data \<Rightarrow> 'w state
     \<Rightarrow> (exn + bool) \<times> 'w state" where
  "handle a ord d s =
     (case handle_try a ord d s of
        (Inl e, s') \<Rightarrow> if is_Exception e then (Inr False, s') else (Inl e, s')
      | (Inr u, s') \<Rightarrow> (Inr True, s'))"

text \<open>
  A set of collaborators that raise instances of \<^verbatim>\<open>Exception\<close> only.
\<close>

definition raises_Exception_only :: "'w api \<Rightarrow> bool" where
  "raises_Exception_only a \<longleftrightarrow>
     (\<forall>ty bid w e. fst (association_list a ty bid w) = Inl e \<longrightarrow> is_Exception e) \<and>
     (\<forall>ty bid ps w e. fst (association_create a ty bid ps w) = Inl e \<longrightarrow> is_Exception e) \<and>
     (\<forall>ty aid bid w e. fst (association_delete a ty aid bid w) = Inl e \<longrightarrow> is_Exception e) \<and>
     (\<forall>msg e0 w e. fst (exceptions_handle a msg e0 w) = Inl e \<longrightarrow> is_Exception e)"

section \<open>Concrete tables, requests and backends\<close>

text \<open>Inputs on which the operations are evaluated below.\<close>

definition row1 :: BGPVPNConnection where
  "row1 = \<lparr>conn_id = ''id-1'', conn_tenant_id = ''t1'', conn_name = ''vpn-a'', conn_type = L3,
           conn_route_targets = ''65000:1,65000:2'', conn_import_targets = [],
           conn_export_targets = ''65000:3'', conn_route_distinguishers = [],
           conn_auto_aggregate = False, conn_network_id = None\<rparr>"

definition no_keys :: bgpvpn_conn where
  "no_keys = \<lparr>tenant_id = None, name = None, vpn_type = None, route_targets = None,
              import_targets = None, export_targets = None, route_distinguishers = None,
              auto_aggregate = None, network_id = None\<rparr>"

text \<open>
  A backend that keeps the associations of one VPN in a list: listing returns it,
  creating appends an association for the resource named in the parameters, deleting
  drops the association with the given id. The framework's handler returns normally.
\<close>

definition memory_api :: "association list api" where
  "memory_api =
     \<lparr>association_list = (\<lambda>ty bid w. (Inr w, w)),
      association_create =
        (\<lambda>ty bid params w.
           (Inr (), w @ map (\<lambda>p. \<lparr>asso_id = ''asso-'' @ snd p, resource_id = snd p\<rparr>) params)),
      association_delete = (\<lambda>ty aid bid w. (Inr (), filter (\<lambda>x. asso_id x \<noteq> aid) w)),
      exceptions_handle = (\<lambda>msg e w. (Inr (), w))\<rparr>"

text \<open>The same backend when every create is refused.\<close>

definition refusing_api :: "association list api" where
  "refusing_api =
     memory_api\<lparr>association_create := (\<lambda>ty bid params w. (Inl (Exn ''Conflict'' ''refused''), w))\<rparr>"

text \<open>The same backend when the listing is interrupted from the keyboard.\<close>

definition interrupted_api :: "association list api" where
  "interrupted_api =
     memory_api\<lparr>association_list := (\<lambda>ty bid w. (Inl (BaseExn ''KeyboardInterrupt'' []), w))\<rparr>"

definition start :: "association list \<Rightarrow> association list state" where
  "start w = \<lparr>world = w, calls = []\<rparr>"

definition asso :: "string \<Rightarrow> association" where
  "asso r = \<lparr>asso_id = ''asso-'' @ r, resource_id = r\<rparr>"

definition networks_request :: "string list \<Rightarrow> workflow_data" where
  "networks_request ids =
     \<lparr>bgpvpn_id = Some ''vpn-1'', networks_association = Some ids, routers_association = None\<rparr>"

definition empty_request :: workflow_data where
  "empty_request =
     \<lparr>bgpvpn_id = Some ''vpn-1'', networks_association = None, routers_association = None\<rparr>"

section \<open>Route-target lists as strings\<close>

lemma split_acc_no_sep: "sep \<notin> set x \<Longrightarrow> split_acc sep w x = [w @ x]"
  by (induction x arbitrary: w) auto

lemma split_acc_word:
  "sep \<notin> set x \<Longrightarrow> split_acc sep w (x @ sep # rest) = (w @ x) # split_acc sep [] rest"
  by (induction x arbitrary: w) auto

lemma split_acc_join:
  "\<forall>y \<in> set (x # xs). sep \<notin> set y \<Longrightarrow>
     split_acc sep w (str_join [sep] (x # xs)) = (w @ x) # xs"
proof (induction xs arbitrary: x w)
  case Nil
  then show ?case by (simp add: split_acc_no_sep)
next
  case (Cons y ys)
  have "split_acc sep w (x @ sep # str_join [sep] (y # ys))
          = (w @ x) # split_acc sep [] (str_join [sep] (y # ys))"
    using Cons.prems by (simp add: split_acc_word)
  also have "split_acc sep [] (str_join [sep] (y # ys)) = y # ys"
    using Cons.IH [of y "[]"] Cons.prems by simp
  finally show ?case by simp
qed

lemma str_join_empty: "str_join sep (x # xs) = [] \<Longrightarrow> sep \<noteq> [] \<Longrightarrow> x = [] \<and> xs = []"
  by (cases xs) auto

text \<open>
  C3, as the code has it. Joining a list of comma-free strings with commas and
  splitting the result at commas gives the list back, for every list but the one
  whose only element is the empty string: that list is written as the empty string,
  which \<^verbatim>\<open>_rtrd_str2list\<close> reads as the empty list. The empty list is written as the
  empty string and the empty string is read as the empty list.
\<close>

theorem rtrd_roundtrip:
  "(l \<noteq> [[]] \<and> (\<forall>x \<in> set l. CHR '','' \<notin> set x) \<longrightarrow> rtrd_str2list (rtrd_list2str l) = l)
   \<and> rtrd_list2str [] = [] \<and> rtrd_str2list [] = []"
proof -
  have "rtrd_str2list (rtrd_list2str l) = l"
    if ne: "l \<noteq> [[]]" and cf: "\<forall>x \<in> set l. CHR '','' \<notin> set x"
  proof (cases l)
    case Nil
    then show ?thesis by (simp add: rtrd_list2str_def rtrd_str2list_def)
  next
    case (Cons x xs)
    have "str_join '','' (x # xs) \<noteq> []"
      using str_join_empty [of "'',''" x xs] ne Cons by auto
    moreover have "split_acc CHR '','' [] (str_join '','' (x # xs)) = x # xs"
      using split_acc_join [of x xs "CHR '',''" "[]"] cf Cons by simp
    ultimately show ?thesis
      using Cons by (simp add: rtrd_list2str_def rtrd_str2list_def str_split_def)
  qed
  then show ?thesis by (simp add: rtrd_list2str_def rtrd_str2list_def)
qed

theorem rtrd_roundtrip_witness:
  "rtrd_str2list (rtrd_list2str [''65000:1'', ''65000:2'']) = [''65000:1'', ''65000:2'']
   \<and> rtrd_list2str [''65000:1'', ''65000:2''] = ''65000:1,65000:2''"
  using rtrd_roundtrip [of "[''65000:1'', ''65000:2'']"]
  by (simp add: rtrd_list2str_def)

text \<open>
  The claim as stated fails at the list holding one empty string, which has no comma.
\<close>

theorem rtrd_roundtrip_counterexample:
  "CHR '','' \<notin> set '''' \<and> rtrd_str2list (rtrd_list2str ['''']) = [] \<and>
   rtrd_str2list (rtrd_list2str ['''']) \<noteq> ['''']"
  by (simp add: rtrd_list2str_def rtrd_str2list_def)

section \<open>The record store\<close>

text \<open>
  C2. Creating a connection whose \<^verbatim>\<open>route_targets\<close> is the empty list raises
  \<^verbatim>\<open>BGPVPNConnectionMissingRouteTarget\<close> and leaves the table as it was.
\<close>

theorem create_empty_route_targets:
  "route_targets c = Some [] \<Longrightarrow>
     create_bgpvpn_connection tenant_for_create uuid c tbl =
       (Inl BGPVPNConnectionMissingRouteTarget, tbl)"
  by (simp add: create_bgpvpn_connection_def getitem_def)

theorem create_empty_route_targets_witness:
  "create_bgpvpn_connection (\<lambda>c. Inr ''t1'') ''id-2''
     (no_keys\<lparr>name := Some ''vpn-b'', route_targets := Some []\<rparr>) [row1] =
       (Inl BGPVPNConnectionMissingRouteTarget, [row1])"
  using create_empty_route_targets
    [of "no_keys\<lparr>name := Some ''vpn-b'', route_targets := Some []\<rparr>"
        "\<lambda>c. Inr ''t1''" "''id-2''" "[row1]"]
  by (simp add: no_keys_def)

lemma filter_id_map:
  "conn_id r' = i \<Longrightarrow>
     filter (\<lambda>x. conn_id x = i) (map (\<lambda>x. if conn_id x = i then r' else x) tbl) =
       map (\<lambda>_. r') (filter (\<lambda>x. conn_id x = i) tbl)"
  by (induction tbl) auto

lemma filter_other_map:
  "conn_id r' = i \<Longrightarrow>
     filter (\<lambda>x. conn_id x \<noteq> i) (map (\<lambda>x. if conn_id x = i then r' else x) tbl) =
       filter (\<lambda>x. conn_id x \<noteq> i) tbl"
  by (induction tbl) auto

lemma get_by_id_Inr: "get_by_id tbl i = Inr r \<Longrightarrow> filter (\<lambda>x. conn_id x = i) tbl = [r]"
  by (auto simp: get_by_id_def split: list.splits)

lemma get_by_id_conn_id: "get_by_id tbl i = Inr r \<Longrightarrow> conn_id r = i"
proof -
  assume "get_by_id tbl i = Inr r"
  then have "r \<in> set (filter (\<lambda>x. conn_id x = i) tbl)"
    by (simp add: get_by_id_Inr)
  then show ?thesis by simp
qed

lemma get_by_id_replace:
  "get_by_id tbl i = Inr r \<Longrightarrow> conn_id r' = i \<Longrightarrow>
     get_by_id (map (\<lambda>x. if conn_id x = i then r' else x) tbl) i = Inr r'"
  by (simp add: get_by_id_def filter_id_map get_by_id_Inr)

lemma get_by_id_unknown:
  "\<forall>x \<in> set tbl. conn_id x \<noteq> i \<Longrightarrow> get_by_id tbl i = Inl NoResultFound"
proof -
  assume "\<forall>x \<in> set tbl. conn_id x \<noteq> i"
  then have "filter (\<lambda>x. conn_id x = i) tbl = []"
    by (induction tbl) auto
  then show ?thesis by (simp add: get_by_id_def)
qed

lemma row_update_conn_id: "conn_id (row_update r c) = conn_id r"
  by (simp add: row_update_def)

lemma update_found:
  assumes "get_by_id tbl i = Inr r"
  shows "update_bgpvpn_connection i c tbl =
           (Inr (make_bgpvpn_connection_dict (row_update r c) None),
            map (\<lambda>x. if conn_id x = i then row_update r c else x) tbl)"
proof -
  have "is_empty_dict c \<Longrightarrow> row_update r c = r"
    by (simp add: is_empty_dict_def row_update_def set_if_present_def)
  then show ?thesis
    using assms
    by (auto simp: update_bgpvpn_connection_def get_bgpvpn_connection_row_def Let_def)
qed

text \<open>
  C5. Updating an existing connection with a partial dict sets exactly the columns
  whose key is in the dict, the four route-target lists as their strings, and leaves
  every other column and every other row as it was; a later get returns the dict of
  the updated row. An id with no row raises \<^verbatim>\<open>BGPVPNConnectionNotFound\<close> and leaves the
  table as it was.
\<close>

theorem update_partial_fields:
  "(get_by_id tbl i = Inr r \<longrightarrow>
      (\<exists>r'. update_bgpvpn_connection i c tbl =
               (Inr (make_bgpvpn_connection_dict r' None),
                map (\<lambda>x. if conn_id x = i then r' else x) tbl)
           \<and> get_bgpvpn_connection i None (snd (update_bgpvpn_connection i c tbl)) =
               Inr (make_bgpvpn_connection_dict r' None)
           \<and> filter (\<lambda>x. conn_id x \<noteq> i) (snd (update_bgpvpn_connection i c tbl)) =
               filter (\<lambda>x. conn_id x \<noteq> i) tbl
           \<and> conn_id r' = conn_id r
           \<and> conn_tenant_id r' = (case tenant_id c of None \<Rightarrow> conn_tenant_id r | Some v \<Rightarrow> v)
           \<and> conn_name r' = (case name c of None \<Rightarrow> conn_name r | Some v \<Rightarrow> v)
           \<and> conn_type r' = (case vpn_type c of None \<Rightarrow> conn_type r | Some v \<Rightarrow> v)
           \<and> conn_route_targets r' =
               (case route_targets c of None \<Rightarrow> conn_route_targets r
                | Some l \<Rightarrow> rtrd_list2str l)
           \<and> conn_import_targets r' =
               (case import_targets c of None \<Rightarrow> conn_import_targets r
                | Some l \<Rightarrow> rtrd_list2str l)
           \<and> conn_export_targets r' =
               (case export_targets c of None \<Rightarrow> conn_export_targets r
                | Some l \<Rightarrow> rtrd_list2str l)
           \<and> conn_route_distinguishers r' =
               (case route_distinguishers c of None \<Rightarrow> conn_route_distinguishers r
                | Some l \<Rightarrow> rtrd_list2str l)
           \<and> conn_auto_aggregate r' =
               (case auto_aggregate c of None \<Rightarrow> conn_auto_aggregate r | Some v \<Rightarrow> v)
           \<and> conn_network_id r' =
               (case network_id c of None \<Rightarrow> conn_network_id r | Some v \<Rightarrow> v)))
   \<and> ((\<forall>x \<in> set tbl. conn_id x \<noteq> i) \<longrightarrow>
        update_bgpvpn_connection i c tbl = (Inl (BGPVPNConnectionNotFound i), tbl))"
proof (intro conjI impI)
  assume g: "get_by_id tbl i = Inr r"
  let ?r = "row_update r c"
  have id: "conn_id ?r = i"
    using g by (simp add: row_update_conn_id get_by_id_conn_id)
  have u: "update_bgpvpn_connection i c tbl =
             (Inr (make_bgpvpn_connection_dict ?r None),
              map (\<lambda>x. if conn_id x = i then ?r else x) tbl)"
    using g by (rule update_found)
  have get: "get_bgpvpn_connection i None (snd (update_bgpvpn_connection i c tbl)) =
               Inr (make_bgpvpn_connection_dict ?r None)"
    using get_by_id_replace [OF g id]
    by (simp add: u get_bgpvpn_connection_def get_bgpvpn_connection_row_def)
  have others: "filter (\<lambda>x. conn_id x \<noteq> i) (snd (update_bgpvpn_connection i c tbl)) =
                  filter (\<lambda>x. conn_id x \<noteq> i) tbl"
    using filter_other_map [OF id] by (simp add: u)
  have cols:
    "conn_id ?r = conn_id r"
    "conn_tenant_id ?r = (case tenant_id c of None \<Rightarrow> conn_tenant_id r | Some v \<Rightarrow> v)"
    "conn_name ?r = (case name c of None \<Rightarrow> conn_name r | Some v \<Rightarrow> v)"
    "conn_type ?r = (case vpn_type c of None \<Rightarrow> conn_type r | Some v \<Rightarrow> v)"
    "conn_route_targets ?r =
       (case route_targets c of None \<Rightarrow> conn_route_targets r | Some l \<Rightarrow> rtrd_list2str l)"
    "conn_import_targets ?r =
       (case import_targets c of None \<Rightarrow> conn_import_targets r | Some l \<Rightarrow> rtrd_list2str l)"
    "conn_export_targets ?r =
       (case export_targets c of None \<Rightarrow> conn_export_targets r | Some l \<Rightarrow> rtrd_list2str l)"
    "conn_route_distinguishers ?r =
       (case route_distinguishers c of None \<Rightarrow> conn_route_distinguishers r
        | Some l \<Rightarrow> rtrd_list2str l)"
    "conn_auto_aggregate ?r =
       (case auto_aggregate c of None \<Rightarrow> conn_auto_aggregate r | Some v \<Rightarrow> v)"
    "conn_network_id ?r = (case network_id c of None \<Rightarrow> conn_network_id r | Some v \<Rightarrow> v)"
    by (simp_all add: row_update_def set_if_present_def split: option.splits)
  show "\<exists>r'. update_bgpvpn_connection i c tbl =
               (Inr (make_bgpvpn_connection_dict r' None),
                map (\<lambda>x. if conn_id x = i then r' else x) tbl)
           \<and> get_bgpvpn_connection i None (snd (update_bgpvpn_connection i c tbl)) =
               Inr (make_bgpvpn_connection_dict r' None)
           \<and> filter (\<lambda>x. conn_id x \<noteq> i) (snd (update_bgpvpn_connection i c tbl)) =
               filter (\<lambda>x. conn_id x \<noteq> i) tbl
           \<and> conn_id r' = conn_id r
           \<and> conn_tenant_id r' = (case tenant_id c of None \<Rightarrow> conn_tenant_id r | Some v \<Rightarrow> v)
           \<and> conn_name r' = (case name c of None \<Rightarrow> conn_name r | Some v \<Rightarrow> v)
           \<and> conn_type r' = (case vpn_type c of None \<Rightarrow> conn_type r | Some v \<Rightarrow> v)
           \<and> conn_route_targets r' =
               (case route_targets c of None \<Rightarrow> conn_route_targets r
                | Some l \<Rightarrow> rtrd_list2str l)
           \<and> conn_import_targets r' =
               (case import_targets c of None \<Rightarrow> conn_import_targets r
                | Some l \<Rightarrow> rtrd_list2str l)
           \<and> conn_export_targets r' =
               (case export_targets c of None \<Rightarrow> conn_export_targets r
                | Some l \<Rightarrow> rtrd_list2str l)
           \<and> conn_route_distinguishers r' =
               (case route_distinguishers c of None \<Rightarrow> conn_route_distinguishers r
                | Some l \<Rightarrow> rtrd_list2str l)
           \<and> conn_auto_aggregate r' =
               (case auto_aggregate c of None \<Rightarrow> conn_auto_aggregate r | Some v \<Rightarrow> v)
           \<and> conn_network_id r' =
               (case network_id c of None \<Rightarrow> conn_network_id r | Some v \<Rightarrow> v)"
    using u get others cols by (intro exI [of _ ?r] conjI)
next
  assume "\<forall>x \<in> set tbl. conn_id x \<noteq> i"
  then show "update_bgpvpn_connection i c tbl = (Inl (BGPVPNConnectionNotFound i), tbl)"
    by (simp add: update_bgpvpn_connection_def get_bgpvpn_connection_row_def get_by_id_unknown)
qed

theorem update_partial_fields_witness:
  "get_by_id [row1] ''id-1'' = Inr row1
   \<and> update_bgpvpn_connection ''id-1''
        (no_keys\<lparr>name := Some ''renamed'', import_targets := Some [''65000:7'', ''65000:8'']\<rparr>)
        [row1] =
       (Inr (make_bgpvpn_connection_dict
               (row1\<lparr>conn_name := ''renamed'', conn_import_targets := ''65000:7,65000:8''\<rparr>) None),
        [row1\<lparr>conn_name := ''renamed'', conn_import_targets := ''65000:7,65000:8''\<rparr>])
   \<and> get_bgpvpn_connection ''id-1'' None
        [row1\<lparr>conn_name := ''renamed'', conn_import_targets := ''65000:7,65000:8''\<rparr>] =
       Inr (make_bgpvpn_connection_dict
              (row1\<lparr>conn_name := ''renamed'', conn_import_targets := ''65000:7,65000:8''\<rparr>) None)
   \<and> update_bgpvpn_connection ''id-9'' (no_keys\<lparr>name := Some ''renamed''\<rparr>) [row1] =
       (Inl (BGPVPNConnectionNotFound ''id-9''), [row1])"
proof -
  let ?c = "no_keys\<lparr>name := Some ''renamed'', import_targets := Some [''65000:7'', ''65000:8'']\<rparr>"
  let ?r = "row1\<lparr>conn_name := ''renamed'', conn_import_targets := ''65000:7,65000:8''\<rparr>"
  have g: "get_by_id [row1] ''id-1'' = Inr row1"
    by (simp add: get_by_id_def row1_def)
  have n: "\<forall>x \<in> set [row1]. conn_id x \<noteq> ''id-9''"
    by (simp add: row1_def)
  from update_partial_fields [of "[row1]" "''id-1''" row1 ?c] g
  obtain r' where
    u: "update_bgpvpn_connection ''id-1'' ?c [row1] =
          (Inr (make_bgpvpn_connection_dict r' None),
           map (\<lambda>x. if conn_id x = ''id-1'' then r' else x) [row1])" and
    get: "get_bgpvpn_connection ''id-1'' None (snd (update_bgpvpn_connection ''id-1'' ?c [row1])) =
            Inr (make_bgpvpn_connection_dict r' None)" and
    cols: "conn_id r' = conn_id row1"
      "conn_tenant_id r' = (case tenant_id ?c of None \<Rightarrow> conn_tenant_id row1 | Some v \<Rightarrow> v)"
      "conn_name r' = (case name ?c of None \<Rightarrow> conn_name row1 | Some v \<Rightarrow> v)"
      "conn_type r' = (case vpn_type ?c of None \<Rightarrow> conn_type row1 | Some v \<Rightarrow> v)"
      "conn_route_targets r' =
         (case route_targets ?c of None \<Rightarrow> conn_route_targets row1 | Some l \<Rightarrow> rtrd_list2str l)"
      "conn_import_targets r' =
         (case import_targets ?c of None \<Rightarrow> conn_import_targets row1 | Some l \<Rightarrow> rtrd_list2str l)"
      "conn_export_targets r' =
         (case export_targets ?c of None \<Rightarrow> conn_export_targets row1 | Some l \<Rightarrow> rtrd_list2str l)"
      "conn_route_distinguishers r' =
         (case route_distinguishers ?c of None \<Rightarrow> conn_route_distinguishers row1
          | Some l \<Rightarrow> rtrd_list2str l)"
      "conn_auto_aggregate r' =
         (case auto_aggregate ?c of None \<Rightarrow> conn_auto_aggregate row1 | Some v \<Rightarrow> v)"
      "conn_network_id r' = (case network_id ?c of None \<Rightarrow> conn_network_id row1 | Some v \<Rightarrow> v)"
    by blast
  have r': "r' = ?r"
    using cols by (cases r') (simp add: row1_def no_keys_def rtrd_list2str_def)
  have u': "update_bgpvpn_connection ''id-1'' ?c [row1] =
              (Inr (make_bgpvpn_connection_dict ?r None), [?r])"
    using u by (simp add: r' row1_def)
  have get': "get_bgpvpn_connection ''id-1'' None [?r] =
                Inr (make_bgpvpn_connection_dict ?r None)"
    using get by (simp add: u' r')
  have nf: "update_bgpvpn_connection ''id-9'' (no_keys\<lparr>name := Some ''renamed''\<rparr>) [row1] =
              (Inl (BGPVPNConnectionNotFound ''id-9''), [row1])"
    using update_partial_fields [of "[row1]" "''id-9''" row1 "no_keys\<lparr>name := Some ''renamed''\<rparr>"] n
    by blast
  show ?thesis
    by (rule conjI [OF g conjI [OF u' conjI [OF get' nf]]])
qed

text \<open>
  C6, at a table that has no row with the id asked for. \<^verbatim>\<open>delete_bgpvpn_connection\<close>
  raises the ORM's \<^verbatim>\<open>NoResultFound\<close>, where get and update raise
  \<^verbatim>\<open>BGPVPNConnectionNotFound\<close>; on the id of a stored row it returns that row and
  removes it.
\<close>

theorem delete_unknown_id:
  "delete_bgpvpn_connection ''id-9'' [row1] = (Inl NoResultFound, [row1])
   \<and> get_bgpvpn_connection ''id-9'' None [row1] = Inl (BGPVPNConnectionNotFound ''id-9'')
   \<and> fst (update_bgpvpn_connection ''id-9'' no_keys [row1]) =
       Inl (BGPVPNConnectionNotFound ''id-9'')
   \<and> delete_bgpvpn_connection ''id-1'' [row1] = (Inr row1, [])"
  by (simp add: delete_bgpvpn_connection_def get_bgpvpn_connection_def
      update_bgpvpn_connection_def get_bgpvpn_connection_row_def get_by_id_def row1_def)

section \<open>The reconciliation delta\<close>

lemma set_minus_list_set:
  "is_iteration_order ord \<Longrightarrow> set (set_minus_list ord xs ys) = set xs - set ys"
proof -
  assume "is_iteration_order ord"
  then have "mset (ord (remdups (filter (\<lambda>x. x \<notin> set ys) xs))) =
               mset (remdups (filter (\<lambda>x. x \<notin> set ys) xs))"
    by (simp add: is_iteration_order_def)
  then have "set (ord (remdups (filter (\<lambda>x. x \<notin> set ys) xs))) =
               set (remdups (filter (\<lambda>x. x \<notin> set ys) xs))"
    by (rule mset_eq_setD)
  then show ?thesis by (auto simp: set_minus_list_def)
qed

lemma set_minus_list_distinct:
  "is_iteration_order ord \<Longrightarrow> distinct (set_minus_list ord xs ys)"
proof -
  assume "is_iteration_order ord"
  then have "mset (ord (remdups (filter (\<lambda>x. x \<notin> set ys) xs))) =
               mset (remdups (filter (\<lambda>x. x \<notin> set ys) xs))"
    by (simp add: is_iteration_order_def)
  then have "distinct (ord (remdups (filter (\<lambda>x. x \<notin> set ys) xs))) =
               distinct (remdups (filter (\<lambda>x. x \<notin> set ys) xs))"
    by (rule mset_eq_imp_distinct_iff)
  then show ?thesis by (simp add: set_minus_list_def)
qed

text \<open>
  C1. Whatever order Python iterates a set in, the two lists \<^verbatim>\<open>_handle_type\<close> computes
  hold, without duplicates, the ids of \<open>current - desired\<close> and of
  \<open>desired - current\<close>; so they share no id, and removing the first from the current
  ids and adding the second gives the desired ids.
\<close>

theorem reconciliation_delta:
  assumes "is_iteration_order ord"
  shows "set (to_remove_associations ord current desired) = set current - set desired
       \<and> set (to_add_associations ord current desired) = set desired - set current
       \<and> distinct (to_remove_associations ord current desired)
       \<and> distinct (to_add_associations ord current desired)
       \<and> set (to_add_associations ord current desired)
           \<inter> set (to_remove_associations ord current desired) = {}
       \<and> set desired =
           (set current - set (to_remove_associations ord current desired))
             \<union> set (to_add_associations ord current desired)"
proof -
  have r: "set (to_remove_associations ord current desired) = set current - set desired"
    using assms by (simp add: to_remove_associations_def set_minus_list_set)
  have a: "set (to_add_associations ord current desired) = set desired - set current"
    using assms by (simp add: to_add_associations_def set_minus_list_set)
  have d: "distinct (to_remove_associations ord current desired)"
          "distinct (to_add_associations ord current desired)"
    using assms
    by (simp_all add: to_remove_associations_def to_add_associations_def set_minus_list_distinct)
  from r a d show ?thesis by auto
qed

theorem reconciliation_delta_witness:
  "is_iteration_order rev
   \<and> (set (to_remove_associations rev [''r1'', ''r2'', ''r4''] [''r2'', ''r3''])
          = set [''r1'', ''r2'', ''r4''] - set [''r2'', ''r3'']
       \<and> set (to_add_associations rev [''r1'', ''r2'', ''r4''] [''r2'', ''r3''])
          = set [''r2'', ''r3''] - set [''r1'', ''r2'', ''r4'']
       \<and> distinct (to_remove_associations rev [''r1'', ''r2'', ''r4''] [''r2'', ''r3''])
       \<and> distinct (to_add_associations rev [''r1'', ''r2'', ''r4''] [''r2'', ''r3''])
       \<and> set (to_add_associations rev [''r1'', ''r2'', ''r4''] [''r2'', ''r3''])
           \<inter> set (to_remove_associations rev [''r1'', ''r2'', ''r4''] [''r2'', ''r3'']) = {}
       \<and> set [''r2'', ''r3''] =
           (set [''r1'', ''r2'', ''r4'']
              - set (to_remove_associations rev [''r1'', ''r2'', ''r4''] [''r2'', ''r3'']))
             \<union> set (to_add_associations rev [''r1'', ''r2'', ''r4''] [''r2'', ''r3'']))
   \<and> to_remove_associations rev [''r1'', ''r2'', ''r4''] [''r2'', ''r3''] = [''r4'', ''r1'']
   \<and> to_add_associations rev [''r1'', ''r2'', ''r4''] [''r2'', ''r3''] = [''r3'']"
proof -
  have h: "is_iteration_order rev"
    by (simp add: is_iteration_order_def)
  have e1: "to_remove_associations rev [''r1'', ''r2'', ''r4''] [''r2'', ''r3''] = [''r4'', ''r1'']"
    by (simp add: to_remove_associations_def set_minus_list_def)
  have e2: "to_add_associations rev [''r1'', ''r2'', ''r4''] [''r2'', ''r3''] = [''r3'']"
    by (simp add: to_add_associations_def set_minus_list_def)
  note t = reconciliation_delta [OF h, of "[''r1'', ''r2'', ''r4'']" "[''r2'', ''r3'']"]
  show ?thesis
    by (rule conjI [OF h conjI [OF t conjI [OF e1 e2]]])
qed

section \<open>The calls a reconciliation issues\<close>

lemma handle_and_raise_calls [simp]: "calls (snd (handle_and_raise a msg e s)) = calls s"
  by (simp add: handle_and_raise_def split: prod.splits sum.splits)

lemma handle_and_raise_isl [simp]: "isl (fst (handle_and_raise a msg e s))"
  by (simp add: handle_and_raise_def split: prod.splits sum.splits)

lemma list_method_calls [simp]:
  "calls (snd (list_method a ty bid s)) = calls s @ [ListCall ty bid]"
  by (simp add: list_method_def split: prod.splits)

lemma create_asso_calls [simp]:
  "calls (snd (create_asso a ty bid ps s)) = calls s @ [CreateCall ty bid ps]"
  by (simp add: create_asso_def split: prod.splits)

lemma delete_method_calls [simp]:
  "calls (snd (delete_method a ty aid bid s)) = calls s @ [DeleteCall ty aid bid]"
  by (simp add: delete_method_def split: prod.splits)

lemma list_method_result:
  "association_list a ty bid (world s) = (r, w) \<Longrightarrow>
     list_method a ty bid s = (r, \<lparr>world = w, calls = calls s @ [ListCall ty bid]\<rparr>)"
  by (simp add: list_method_def)

lemma add_associations_calls:
  "\<exists>k \<le> length rs.
      calls (snd (add_associations a ty bid rs s)) =
        calls s @ map (\<lambda>r. CreateCall ty bid (set_params ty r)) (take k rs)
      \<and> (\<not> isl (fst (add_associations a ty bid rs s)) \<longrightarrow> k = length rs)"
proof (induction rs arbitrary: s)
  case Nil
  then show ?case by simp
next
  case (Cons r rs)
  obtain x s' where c: "create_asso a ty bid (set_params ty r) s = (x, s')"
    by (cases "create_asso a ty bid (set_params ty r) s")
  have s': "calls s' = calls s @ [CreateCall ty bid (set_params ty r)]"
    using create_asso_calls [of a ty bid "set_params ty r" s] c by simp
  show ?case
  proof (cases x)
    case (Inl e)
    with c s' have
      "calls (snd (add_associations a ty bid (r # rs) s)) =
         calls s @ map (\<lambda>r. CreateCall ty bid (set_params ty r)) (take 1 (r # rs))
       \<and> (\<not> isl (fst (add_associations a ty bid (r # rs) s)) \<longrightarrow> 1 = length (r # rs))"
      by simp
    then show ?thesis
      by (intro exI [of _ 1]) simp
  next
    case (Inr u)
    from Cons.IH [of s'] obtain k where
      k: "k \<le> length rs"
         "calls (snd (add_associations a ty bid rs s')) =
            calls s' @ map (\<lambda>r. CreateCall ty bid (set_params ty r)) (take k rs)"
         "\<not> isl (fst (add_associations a ty bid rs s')) \<longrightarrow> k = length rs"
      by blast
    with Inr c s' have
      "Suc k \<le> length (r # rs) \<and>
       calls (snd (add_associations a ty bid (r # rs) s)) =
         calls s @ map (\<lambda>r. CreateCall ty bid (set_params ty r)) (take (Suc k) (r # rs))
       \<and> (\<not> isl (fst (add_associations a ty bid (r # rs) s)) \<longrightarrow> Suc k = length (r # rs))"
      by simp
    then show ?thesis by blast
  qed
qed

lemma delete_matching_calls:
  "\<exists>evs. calls (snd (delete_matching a ty bid resource xs s)) = calls s @ evs
         \<and> (\<forall>c \<in> set evs. is_delete c)"
proof (induction xs arbitrary: s)
  case Nil
  then show ?case by simp
next
  case (Cons x xs)
  show ?case
  proof (cases "resource_id x = resource")
    case False
    then show ?thesis using Cons.IH [of s] by simp
  next
    case True
    obtain r s' where d: "delete_method a ty (asso_id x) bid s = (r, s')"
      by (cases "delete_method a ty (asso_id x) bid s")
    have s': "calls s' = calls s @ [DeleteCall ty (asso_id x) bid]"
      using delete_method_calls [of a ty "asso_id x" bid s] d by simp
    show ?thesis
    proof (cases r)
      case (Inl e)
      with True d s' have
        "calls (snd (delete_matching a ty bid resource (x # xs) s)) =
           calls s @ [DeleteCall ty (asso_id x) bid]"
        by simp
      then show ?thesis
        by (intro exI [of _ "[DeleteCall ty (asso_id x) bid]"]) simp
    next
      case (Inr u)
      from Cons.IH [of s'] obtain evs where
        e: "calls (snd (delete_matching a ty bid resource xs s')) = calls s' @ evs"
           "\<forall>c \<in> set evs. is_delete c"
        by blast
      with Inr True d s' have
        "calls (snd (delete_matching a ty bid resource (x # xs) s)) =
           calls s @ DeleteCall ty (asso_id x) bid # evs"
        by simp
      with e(2) show ?thesis
        by (intro exI [of _ "DeleteCall ty (asso_id x) bid # evs"]) simp
    qed
  qed
qed

lemma remove_resource_calls:
  "\<exists>evs. calls (snd (remove_resource a ty bid resource s)) = calls s @ ListCall ty bid # evs
         \<and> (\<forall>c \<in> set evs. is_delete c)"
proof -
  obtain r s1 where l: "list_method a ty bid s = (r, s1)"
    by (cases "list_method a ty bid s")
  have s1: "calls s1 = calls s @ [ListCall ty bid]"
    using list_method_calls [of a ty bid s] l by simp
  show ?thesis
  proof (cases r)
    case (Inl e)
    with l s1 have "calls (snd (remove_resource a ty bid resource s)) = calls s @ [ListCall ty bid]"
      by (simp add: remove_resource_def)
    then show ?thesis by simp
  next
    case (Inr asso_list)
    from delete_matching_calls [of a ty bid resource asso_list s1] obtain evs where
      e: "calls (snd (delete_matching a ty bid resource asso_list s1)) = calls s1 @ evs"
         "\<forall>c \<in> set evs. is_delete c"
      by blast
    with Inr l s1 have
      "calls (snd (remove_resource a ty bid resource s)) = calls s @ ListCall ty bid # evs"
      by (auto simp: remove_resource_def split: prod.splits sum.splits)
    with e(2) show ?thesis by blast
  qed
qed

lemma remove_associations_calls:
  "\<exists>evs. calls (snd (remove_associations a ty bid rs s)) = calls s @ evs
         \<and> (\<forall>c \<in> set evs. \<not> is_create c)"
proof (induction rs arbitrary: s)
  case Nil
  then show ?case by simp
next
  case (Cons r rs)
  obtain x s' where rr: "remove_resource a ty bid r s = (x, s')"
    by (cases "remove_resource a ty bid r s")
  from remove_resource_calls [of a ty bid r s] rr obtain evs where
    e: "calls s' = calls s @ ListCall ty bid # evs" "\<forall>c \<in> set evs. is_delete c"
    by auto
  have nc: "\<forall>c \<in> set (ListCall ty bid # evs). \<not> is_create c"
  proof
    fix c assume "c \<in> set (ListCall ty bid # evs)"
    then have "c = ListCall ty bid \<or> is_delete c" using e(2) by auto
    then show "\<not> is_create c" by (cases c) auto
  qed
  show ?case
  proof (cases x)
    case (Inl ex)
    with rr e have "calls (snd (remove_associations a ty bid (r # rs) s)) =
                      calls s @ ListCall ty bid # evs"
      by simp
    with nc show ?thesis by blast
  next
    case (Inr u)
    from Cons.IH [of s'] obtain evs' where
      e': "calls (snd (remove_associations a ty bid rs s')) = calls s' @ evs'"
          "\<forall>c \<in> set evs'. \<not> is_create c"
      by blast
    with Inr rr e have "calls (snd (remove_associations a ty bid (r # rs) s)) =
                          calls s @ (ListCall ty bid # evs) @ evs'"
      by simp
    moreover have "\<forall>c \<in> set ((ListCall ty bid # evs) @ evs'). \<not> is_create c"
      using nc e'(2) by auto
    ultimately show ?thesis by blast
  qed
qed

lemma delete_matching_none:
  "\<forall>x \<in> set xs. resource_id x \<noteq> resource \<Longrightarrow>
     delete_matching a ty bid resource xs s = (Inr (), s)"
  by (induction xs) auto

text \<open>
  C10. Each turn of the removal loop starts by listing the associations again and
  issues nothing but deletes after that. When the list comes back without an
  association of the resource, the turn issues no delete and raises nothing: it
  returns normally in the state the listing left, and the loop goes on with the
  remaining resources from that state.
\<close>

theorem vanished_resource_skipped:
  "(\<exists>evs. calls (snd (remove_resource a ty bid resource s)) = calls s @ ListCall ty bid # evs
          \<and> (\<forall>c \<in> set evs. is_delete c))
   \<and> (association_list a ty bid (world s) = (Inr asso_list, w)
        \<and> (\<forall>x \<in> set asso_list. resource_id x \<noteq> resource) \<longrightarrow>
      remove_resource a ty bid resource s =
        (Inr (), \<lparr>world = w, calls = calls s @ [ListCall ty bid]\<rparr>)
      \<and> remove_associations a ty bid (resource # rest) s =
          remove_associations a ty bid rest \<lparr>world = w, calls = calls s @ [ListCall ty bid]\<rparr>)"
proof (intro conjI impI)
  show "\<exists>evs. calls (snd (remove_resource a ty bid resource s)) = calls s @ ListCall ty bid # evs
          \<and> (\<forall>c \<in> set evs. is_delete c)"
    by (rule remove_resource_calls)
next
  assume h: "association_list a ty bid (world s) = (Inr asso_list, w)
        \<and> (\<forall>x \<in> set asso_list. resource_id x \<noteq> resource)"
  then have l: "list_method a ty bid s =
                  (Inr asso_list, \<lparr>world = w, calls = calls s @ [ListCall ty bid]\<rparr>)"
    by (simp add: list_method_result)
  from h have "delete_matching a ty bid resource asso_list
                 \<lparr>world = w, calls = calls s @ [ListCall ty bid]\<rparr> =
               (Inr (), \<lparr>world = w, calls = calls s @ [ListCall ty bid]\<rparr>)"
    by (simp add: delete_matching_none)
  with l show rr: "remove_resource a ty bid resource s =
        (Inr (), \<lparr>world = w, calls = calls s @ [ListCall ty bid]\<rparr>)"
    by (simp add: remove_resource_def)
  then show "remove_associations a ty bid (resource # rest) s =
          remove_associations a ty bid rest \<lparr>world = w, calls = calls s @ [ListCall ty bid]\<rparr>"
    by simp
qed

theorem vanished_resource_skipped_witness:
  "association_list memory_api Network ''vpn-1'' (world (start [asso ''n1''])) =
     (Inr [asso ''n1''], [asso ''n1''])
   \<and> remove_resource memory_api Network ''vpn-1'' ''n2'' (start [asso ''n1'']) =
       (Inr (), \<lparr>world = [asso ''n1''], calls = [ListCall Network ''vpn-1'']\<rparr>)
   \<and> remove_associations memory_api Network ''vpn-1'' [''n2'', ''n1''] (start [asso ''n1'']) =
       (Inr (), \<lparr>world = [],
                 calls = [ListCall Network ''vpn-1'', ListCall Network ''vpn-1'',
                          DeleteCall Network ''asso-n1'' ''vpn-1'']\<rparr>)"
proof -
  have l: "association_list memory_api Network ''vpn-1'' (world (start [asso ''n1''])) =
             (Inr [asso ''n1''], [asso ''n1''])"
    by (simp add: memory_api_def start_def)
  have n: "\<forall>x \<in> set [asso ''n1'']. resource_id x \<noteq> ''n2''"
    by (simp add: asso_def)
  note t = vanished_resource_skipped
    [of memory_api Network "''vpn-1''" "''n2''" "start [asso ''n1'']" "[asso ''n1'']"
        "[asso ''n1'']" "[''n1'']", THEN conjunct2, rule_format, OF conjI [OF l n]]
  have c: "calls (start [asso ''n1'']) = []"
    by (simp add: start_def)
  have r: "remove_associations memory_api Network ''vpn-1'' [''n1'']
             \<lparr>world = [asso ''n1''], calls = [ListCall Network ''vpn-1'']\<rparr> =
           (Inr (), \<lparr>world = [],
                 calls = [ListCall Network ''vpn-1'', ListCall Network ''vpn-1'',
                          DeleteCall Network ''asso-n1'' ''vpn-1'']\<rparr>)"
    by (simp add: remove_resource_def list_method_def delete_method_def memory_api_def
        asso_def)
  from t c r have
    "remove_resource memory_api Network ''vpn-1'' ''n2'' (start [asso ''n1'']) =
       (Inr (), \<lparr>world = [asso ''n1''], calls = [ListCall Network ''vpn-1'']\<rparr>)"
    "remove_associations memory_api Network ''vpn-1'' [''n2'', ''n1''] (start [asso ''n1'']) =
       (Inr (), \<lparr>world = [],
                 calls = [ListCall Network ''vpn-1'', ListCall Network ''vpn-1'',
                          DeleteCall Network ''asso-n1'' ''vpn-1'']\<rparr>)"
    by simp_all
  with l show ?thesis by blast
qed

section \<open>The outcome of handle\<close>

lemma handle_no_type:
  "networks_association d = None \<Longrightarrow> routers_association d = None \<Longrightarrow>
     handle_try a ord d s =
       (Inl (Exn ''Exception'' ''Associations type is not supported''), s)"
  by (simp add: handle_try_def handle_networks_def handle_routers_def)

lemma handle_try_ok:
  "networks_association d \<noteq> None \<or> routers_association d \<noteq> None \<Longrightarrow>
     \<not> isl (fst (handle_try a ord d s)) \<longleftrightarrow>
       (networks_association d \<noteq> None \<longrightarrow> \<not> isl (fst (handle_type a ord d Network s))) \<and>
       (routers_association d \<noteq> None \<longrightarrow>
          \<not> isl (fst (handle_type a ord d Router
                        (if networks_association d \<noteq> None
                         then snd (handle_type a ord d Network s) else s))))"
  by (cases "handle_type a ord d Network s";
      cases "handle_type a ord d Router s";
      cases "handle_type a ord d Router (snd (handle_type a ord d Network s))")
     (auto simp: handle_try_def handle_networks_def handle_routers_def
        split: sum.splits prod.splits)

lemma handle_True:
  "fst (handle a ord d s) = Inr True \<longleftrightarrow> \<not> isl (fst (handle_try a ord d s))"
  by (auto simp: handle_def split: prod.splits sum.splits)

lemma handle_fst_Exception:
  "\<forall>e. fst (handle_try a ord d s) = Inl e \<longrightarrow> is_Exception e \<Longrightarrow>
     fst (handle a ord d s) = Inr (\<not> isl (fst (handle_try a ord d s)))"
  by (auto simp: handle_def split: prod.splits sum.splits)

text \<open>
  C4. With neither \<^verbatim>\<open>networks_association\<close> nor \<^verbatim>\<open>routers_association\<close> in the request,
  the body of \<^verbatim>\<open>handle\<close> raises the exception for an unsupported association type
  without calling anything, and \<^verbatim>\<open>handle\<close> reports the failure as \<^verbatim>\<open>False\<close>. With
  one of them in the request, \<^verbatim>\<open>handle\<close> returns \<^verbatim>\<open>True\<close> exactly when the network
  reconciliation, if asked for, did not raise and the router reconciliation, if
  asked for, did not raise in the state the network one left. When what the body
  raises is an instance of \<^verbatim>\<open>Exception\<close>, the value returned is that condition, so
  \<^verbatim>\<open>False\<close> when it fails; an exception that is not one leaves \<^verbatim>\<open>handle\<close>.
\<close>

theorem handle_outcome:
  "(networks_association d = None \<and> routers_association d = None \<longrightarrow>
      handle_try a ord d s =
        (Inl (Exn ''Exception'' ''Associations type is not supported''), s)
      \<and> handle a ord d s = (Inr False, s))
   \<and> (networks_association d \<noteq> None \<or> routers_association d \<noteq> None \<longrightarrow>
       ((fst (handle a ord d s) = Inr True) =
          ((networks_association d \<noteq> None \<longrightarrow>
              \<not> isl (fst (handle_type a ord d Network s))) \<and>
           (routers_association d \<noteq> None \<longrightarrow>
              \<not> isl (fst (handle_type a ord d Router
                            (if networks_association d \<noteq> None
                             then snd (handle_type a ord d Network s) else s))))))
       \<and> ((\<forall>e. fst (handle_try a ord d s) = Inl e \<longrightarrow> is_Exception e) \<longrightarrow>
            fst (handle a ord d s) =
              Inr ((networks_association d \<noteq> None \<longrightarrow>
                      \<not> isl (fst (handle_type a ord d Network s))) \<and>
                   (routers_association d \<noteq> None \<longrightarrow>
                      \<not> isl (fst (handle_type a ord d Router
                                    (if networks_association d \<noteq> None
                                     then snd (handle_type a ord d Network s) else s))))))
       \<and> (fst (handle_try a ord d s) = Inl e \<and> \<not> is_Exception e \<longrightarrow>
            fst (handle a ord d s) = Inl e))"
proof (intro conjI impI)
  assume "fst (handle_try a ord d s) = Inl e \<and> \<not> is_Exception e"
  then show "fst (handle a ord d s) = Inl e"
    by (cases "handle_try a ord d s") (simp add: handle_def)
next
  assume n: "networks_association d = None \<and> routers_association d = None"
  then show t: "handle_try a ord d s =
        (Inl (Exn ''Exception'' ''Associations type is not supported''), s)"
    by (simp add: handle_no_type)
  then show "handle a ord d s = (Inr False, s)"
    by (simp add: handle_def)
next
  assume "networks_association d \<noteq> None \<or> routers_association d \<noteq> None"
  then show "(fst (handle a ord d s) = Inr True) =
          ((networks_association d \<noteq> None \<longrightarrow>
              \<not> isl (fst (handle_type a ord d Network s))) \<and>
           (routers_association d \<noteq> None \<longrightarrow>
              \<not> isl (fst (handle_type a ord d Router
                            (if networks_association d \<noteq> None
                             then snd (handle_type a ord d Network s) else s)))))"
    using handle_try_ok [of d a ord s] by (simp only: handle_True)
next
  assume p: "networks_association d \<noteq> None \<or> routers_association d \<noteq> None"
    and x: "\<forall>e. fst (handle_try a ord d s) = Inl e \<longrightarrow> is_Exception e"
  show "fst (handle a ord d s) =
              Inr ((networks_association d \<noteq> None \<longrightarrow>
                      \<not> isl (fst (handle_type a ord d Network s))) \<and>
                   (routers_association d \<noteq> None \<longrightarrow>
                      \<not> isl (fst (handle_type a ord d Router
                                    (if networks_association d \<noteq> None
                                     then snd (handle_type a ord d Network s) else s)))))"
    using handle_try_ok [OF p, of a ord s] by (simp only: handle_fst_Exception [OF x])
qed

lemma memory_add_n1:
  "handle_type memory_api (\<lambda>zs. zs) (networks_request [''n1'']) Network (start []) =
     (Inr (), \<lparr>world = [asso ''n1''],
               calls = [ListCall Network ''vpn-1'',
                        CreateCall Network ''vpn-1'' [(''network_id'', ''n1'')]]\<rparr>)"
  by (simp add: handle_type_def data_associations_def networks_request_def start_def
      list_method_def create_asso_def memory_api_def to_add_associations_def
      to_remove_associations_def set_minus_list_def set_params_def type_name_def asso_def)

lemma refusing_add_n1:
  "handle_type refusing_api (\<lambda>zs. zs) (networks_request [''n1'']) Network (start []) =
     (Inl (Exn ''Conflict'' ''refused''),
      \<lparr>world = [],
       calls = [ListCall Network ''vpn-1'',
                CreateCall Network ''vpn-1'' [(''network_id'', ''n1'')]]\<rparr>)"
  by (simp add: handle_type_def data_associations_def networks_request_def start_def
      list_method_def create_asso_def memory_api_def refusing_api_def to_add_associations_def
      to_remove_associations_def set_minus_list_def set_params_def type_name_def
      handle_and_raise_def)

lemma refusing_try_n1:
  "handle_try refusing_api (\<lambda>zs. zs) (networks_request [''n1'']) (start []) =
     (Inl (Exn ''Conflict'' ''refused''),
      \<lparr>world = [],
       calls = [ListCall Network ''vpn-1'',
                CreateCall Network ''vpn-1'' [(''network_id'', ''n1'')]]\<rparr>)"
  by (simp add: handle_try_def handle_networks_def networks_request_def
      refusing_add_n1 [unfolded networks_request_def])

theorem handle_outcome_witness:
  "handle memory_api (\<lambda>zs. zs) empty_request (start []) = (Inr False, start [])
   \<and> fst (handle memory_api (\<lambda>zs. zs) (networks_request [''n1'']) (start [])) = Inr True
   \<and> fst (handle refusing_api (\<lambda>zs. zs) (networks_request [''n1'']) (start [])) = Inr False"
proof -
  have e: "networks_association empty_request = None \<and> routers_association empty_request = None"
    by (simp add: empty_request_def)
  have p: "networks_association (networks_request [''n1'']) \<noteq> None
           \<or> routers_association (networks_request [''n1'']) \<noteq> None"
    by (simp add: networks_request_def)
  have r: "routers_association (networks_request [''n1'']) = None"
    by (simp add: networks_request_def)
  have x: "\<forall>e. fst (handle_try refusing_api (\<lambda>zs. zs) (networks_request [''n1'']) (start [])) =
                  Inl e \<longrightarrow> is_Exception e"
    by (simp add: refusing_try_n1)
  have 1: "handle memory_api (\<lambda>zs. zs) empty_request (start []) = (Inr False, start [])"
    using handle_outcome [of empty_request memory_api "\<lambda>zs. zs" "start []"] e by blast
  have 2: "fst (handle memory_api (\<lambda>zs. zs) (networks_request [''n1'']) (start [])) = Inr True"
    using handle_outcome [of "networks_request [''n1'']" memory_api "\<lambda>zs. zs" "start []"] p r
    by (simp add: memory_add_n1)
  have 3: "fst (handle refusing_api (\<lambda>zs. zs) (networks_request [''n1'']) (start [])) = Inr False"
    using handle_outcome [of "networks_request [''n1'']" refusing_api "\<lambda>zs. zs" "start []"] p r x
    by (simp add: refusing_add_n1)
  show ?thesis
    by (rule conjI [OF 1 conjI [OF 2 3]])
qed

section \<open>Creates, then deletes\<close>

lemma handle_type_listed:
  assumes "data_associations d ty = Some desired" and "bgpvpn_id d = Some bid"
    and "association_list a ty bid (world s) = (Inr current, w)"
  shows "handle_type a ord d ty s =
           (case add_associations a ty bid
                   (to_add_associations ord (map resource_id current) desired)
                   \<lparr>world = w, calls = calls s @ [ListCall ty bid]\<rparr> of
              (Inl e, s2) \<Rightarrow> (Inl e, s2)
            | (Inr u, s2) \<Rightarrow>
                remove_associations a ty bid
                  (to_remove_associations ord (map resource_id current) desired) s2)"
proof -
  have add: "(if length xs > 0 then add_associations a ty bid xs s' else (Inr (), s')) =
               add_associations a ty bid xs s'" for xs s'
    by (cases xs) simp_all
  have rem: "(if length xs > 0 then remove_associations a ty bid xs s' else (Inr (), s')) =
               remove_associations a ty bid xs s'" for xs s'
    by (cases xs) simp_all
  show ?thesis
    using assms
    by (simp only: handle_type_def list_method_result [OF assms(3)] Let_def add rem
        option.case prod.case sum.case)
qed

lemma create_calls_not_delete:
  "\<forall>c \<in> set (ListCall ty bid # map (\<lambda>r. CreateCall ty bid (set_params ty r)) rs).
      \<not> is_delete c"
  by auto

lemma filter_create_calls:
  "filter is_create (ListCall ty bid # map (\<lambda>r. CreateCall ty bid (set_params ty r)) rs) =
     map (\<lambda>r. CreateCall ty bid (set_params ty r)) rs"
  by (induction rs) auto

lemma handle_type_trace:
  "\<exists>pre post.
      calls (snd (handle_type a ord d ty s)) = calls s @ pre @ post
      \<and> (\<forall>c \<in> set pre. \<not> is_delete c)
      \<and> (\<forall>c \<in> set post. \<not> is_create c)
      \<and> (data_associations d ty = Some desired \<and> bgpvpn_id d = Some bid
           \<and> association_list a ty bid (world s) = (Inr current, w) \<and> post \<noteq> [] \<longrightarrow>
          filter is_create pre =
            map (\<lambda>r. CreateCall ty bid (set_params ty r))
              (to_add_associations ord (map resource_id current) desired))"
proof (cases "data_associations d ty")
  case None
  then have "calls (snd (handle_type a ord d ty s)) = calls s @ [] @ []"
    by (simp add: handle_type_def)
  then show ?thesis by (intro exI [of _ "[]"]) simp
next
  case (Some desired')
  note des = this
  show ?thesis
  proof (cases "bgpvpn_id d")
    case None
    with des have "calls (snd (handle_type a ord d ty s)) = calls s @ [] @ []"
      by (simp add: handle_type_def)
    then show ?thesis by (intro exI [of _ "[]"]) simp
  next
    case (Some bid')
    note b = this
    obtain r w' where l: "association_list a ty bid' (world s) = (r, w')"
      by (cases "association_list a ty bid' (world s)")
    show ?thesis
    proof (cases r)
      case (Inl e)
      with des b l have
        "calls (snd (handle_type a ord d ty s)) = calls s @ [ListCall ty bid'] @ []"
        by (simp add: handle_type_def list_method_result)
      then show ?thesis
        by (intro exI [of _ "[ListCall ty bid']"] exI [of _ "[]"]) simp
    next
      case (Inr current')
      let ?s1 = "\<lparr>world = w', calls = calls s @ [ListCall ty bid']\<rparr>"
      let ?add = "to_add_associations ord (map resource_id current') desired'"
      let ?rem = "to_remove_associations ord (map resource_id current') desired'"
      let ?mk = "\<lambda>r. CreateCall ty bid' (set_params ty r)"
      have ht: "handle_type a ord d ty s =
                  (case add_associations a ty bid' ?add ?s1 of
                     (Inl e, s2) \<Rightarrow> (Inl e, s2)
                   | (Inr u, s2) \<Rightarrow> remove_associations a ty bid' ?rem s2)"
        using handle_type_listed [OF des b] l Inr by simp
      obtain x s2 where ad: "add_associations a ty bid' ?add ?s1 = (x, s2)"
        by (cases "add_associations a ty bid' ?add ?s1")
      from add_associations_calls [of ?add a ty bid' ?s1] ad obtain k where
        k: "calls s2 = calls s @ ListCall ty bid' # map ?mk (take k ?add)"
           "\<not> isl x \<longrightarrow> k = length ?add"
        by auto
      show ?thesis
      proof (cases x)
        case (Inl e)
        with ht ad k have
          "calls (snd (handle_type a ord d ty s)) =
             calls s @ (ListCall ty bid' # map ?mk (take k ?add)) @ []"
          by simp
        then show ?thesis
          using create_calls_not_delete [of ty bid' "take k ?add"]
          by (intro exI [of _ "ListCall ty bid' # map ?mk (take k ?add)"] exI [of _ "[]"])
             simp
      next
        case (Inr u)
        with k have full: "calls s2 = calls s @ ListCall ty bid' # map ?mk ?add"
          by simp
        from remove_associations_calls [of a ty bid' ?rem s2] obtain post where
          p: "calls (snd (remove_associations a ty bid' ?rem s2)) = calls s2 @ post"
             "\<forall>c \<in> set post. \<not> is_create c"
          by blast
        from ht ad Inr p full have
          c: "calls (snd (handle_type a ord d ty s)) =
                calls s @ (ListCall ty bid' # map ?mk ?add) @ post"
          by simp
        have f: "data_associations d ty = Some desired \<and> bgpvpn_id d = Some bid
                   \<and> association_list a ty bid (world s) = (Inr current, w) \<and> post \<noteq> [] \<longrightarrow>
                 filter is_create (ListCall ty bid' # map ?mk ?add) =
                   map (\<lambda>r. CreateCall ty bid (set_params ty r))
                     (to_add_associations ord (map resource_id current) desired)"
          using des b l \<open>r = Inr current'\<close> filter_create_calls [of ty bid' ?add] by auto
        show ?thesis
          using c p(2) f create_calls_not_delete [of ty bid' ?add]
          by (intro exI [of _ "ListCall ty bid' # map ?mk ?add"] exI [of _ post] conjI)
      qed
    qed
  qed
qed

lemma ordered_append:
  assumes "\<forall>c \<in> set pre. \<not> is_delete c" and "\<forall>c \<in> set post. \<not> is_create c"
    and "i < j" and "j < length (pre @ post)" and "is_delete ((pre @ post) ! i)"
  shows "\<not> is_create ((pre @ post) ! j)"
proof -
  have "\<not> i < length pre"
  proof
    assume "i < length pre"
    then have "(pre @ post) ! i \<in> set pre" by (simp add: nth_append)
    with assms(1,5) show False by blast
  qed
  with assms(3,4) have "(pre @ post) ! j = post ! (j - length pre)" "j - length pre < length post"
    by (auto simp: nth_append)
  then have "(pre @ post) ! j \<in> set post" by simp
  with assms(2) show ?thesis by blast
qed

text \<open>
  C8. In the calls one \<^verbatim>\<open>_handle_type\<close> issues, no create comes after a delete;
  and when a delete is issued at all, the creates issued are those of the whole
  \<^verbatim>\<open>to_add_associations\<close> list, in its order, so every create of the reconciliation
  precedes its first delete.
\<close>

theorem creates_before_deletes:
  "\<exists>evs. calls (snd (handle_type a ord d ty s)) = calls s @ evs
     \<and> (\<forall>i j. i < j \<and> j < length evs \<and> is_delete (evs ! i) \<longrightarrow> \<not> is_create (evs ! j))
     \<and> (data_associations d ty = Some desired \<and> bgpvpn_id d = Some bid
          \<and> association_list a ty bid (world s) = (Inr current, w)
          \<and> (\<exists>c \<in> set evs. is_delete c) \<longrightarrow>
         filter is_create evs =
           map (\<lambda>r. CreateCall ty bid (set_params ty r))
             (to_add_associations ord (map resource_id current) desired))"
proof -
  from handle_type_trace [of a ord d ty s desired bid current w] obtain pre post where
    c: "calls (snd (handle_type a ord d ty s)) = calls s @ pre @ post" and
    pre: "\<forall>c \<in> set pre. \<not> is_delete c" and
    post: "\<forall>c \<in> set post. \<not> is_create c" and
    f: "data_associations d ty = Some desired \<and> bgpvpn_id d = Some bid
          \<and> association_list a ty bid (world s) = (Inr current, w) \<and> post \<noteq> [] \<longrightarrow>
        filter is_create pre =
          map (\<lambda>r. CreateCall ty bid (set_params ty r))
            (to_add_associations ord (map resource_id current) desired)"
    by blast
  have o: "\<forall>i j. i < j \<and> j < length (pre @ post) \<and> is_delete ((pre @ post) ! i) \<longrightarrow>
             \<not> is_create ((pre @ post) ! j)"
    using ordered_append [OF pre post] by blast
  have fp: "filter is_create post = []"
    using post by (simp add: filter_empty_conv)
  have g: "data_associations d ty = Some desired \<and> bgpvpn_id d = Some bid
          \<and> association_list a ty bid (world s) = (Inr current, w)
          \<and> (\<exists>c \<in> set (pre @ post). is_delete c) \<longrightarrow>
         filter is_create (pre @ post) =
           map (\<lambda>r. CreateCall ty bid (set_params ty r))
             (to_add_associations ord (map resource_id current) desired)"
  proof
    assume h: "data_associations d ty = Some desired \<and> bgpvpn_id d = Some bid
          \<and> association_list a ty bid (world s) = (Inr current, w)
          \<and> (\<exists>c \<in> set (pre @ post). is_delete c)"
    then have "post \<noteq> []" using pre by auto
    with h f fp show "filter is_create (pre @ post) =
           map (\<lambda>r. CreateCall ty bid (set_params ty r))
             (to_add_associations ord (map resource_id current) desired)"
      by simp
  qed
  from c o g show ?thesis
    by (intro exI [of _ "pre @ post"] conjI)
qed

lemma memory_swap_run:
  "handle_type memory_api (\<lambda>zs. zs) (networks_request [''n2'', ''n3'']) Network
     (start [asso ''n1'', asso ''n2'']) =
     (Inr (), \<lparr>world = [asso ''n2'', asso ''n3''],
               calls = [ListCall Network ''vpn-1'',
                        CreateCall Network ''vpn-1'' [(''network_id'', ''n3'')],
                        ListCall Network ''vpn-1'',
                        DeleteCall Network ''asso-n1'' ''vpn-1'']\<rparr>)"
  by (simp add: handle_type_def data_associations_def networks_request_def start_def
      list_method_def create_asso_def delete_method_def remove_resource_def memory_api_def
      to_add_associations_def to_remove_associations_def set_minus_list_def set_params_def
      type_name_def asso_def)

theorem creates_before_deletes_witness:
  "data_associations (networks_request [''n2'', ''n3'']) Network = Some [''n2'', ''n3'']
   \<and> bgpvpn_id (networks_request [''n2'', ''n3'']) = Some ''vpn-1''
   \<and> association_list memory_api Network ''vpn-1'' (world (start [asso ''n1'', asso ''n2''])) =
       (Inr [asso ''n1'', asso ''n2''], [asso ''n1'', asso ''n2''])
   \<and> calls (snd (handle_type memory_api (\<lambda>zs. zs) (networks_request [''n2'', ''n3'']) Network
                   (start [asso ''n1'', asso ''n2'']))) =
       [ListCall Network ''vpn-1'',
        CreateCall Network ''vpn-1'' [(''network_id'', ''n3'')],
        ListCall Network ''vpn-1'',
        DeleteCall Network ''asso-n1'' ''vpn-1'']
   \<and> filter is_create
        [ListCall Network ''vpn-1'',
         CreateCall Network ''vpn-1'' [(''network_id'', ''n3'')],
         ListCall Network ''vpn-1'',
         DeleteCall Network ''asso-n1'' ''vpn-1''] =
       map (\<lambda>r. CreateCall Network ''vpn-1'' (set_params Network r))
         (to_add_associations (\<lambda>zs. zs) (map resource_id [asso ''n1'', asso ''n2''])
            [''n2'', ''n3''])"
proof -
  let ?d = "networks_request [''n2'', ''n3'']"
  let ?s = "start [asso ''n1'', asso ''n2'']"
  let ?tr = "[ListCall Network ''vpn-1'',
              CreateCall Network ''vpn-1'' [(''network_id'', ''n3'')],
              ListCall Network ''vpn-1'',
              DeleteCall Network ''asso-n1'' ''vpn-1'']"
  have h1: "data_associations ?d Network = Some [''n2'', ''n3'']"
    by (simp add: data_associations_def networks_request_def)
  have h2: "bgpvpn_id ?d = Some ''vpn-1''"
    by (simp add: networks_request_def)
  have h3: "association_list memory_api Network ''vpn-1'' (world ?s) =
              (Inr [asso ''n1'', asso ''n2''], [asso ''n1'', asso ''n2''])"
    by (simp add: memory_api_def start_def)
  have run: "calls (snd (handle_type memory_api (\<lambda>zs. zs) ?d Network ?s)) = ?tr"
    by (simp add: memory_swap_run)
  from creates_before_deletes
    [of memory_api "\<lambda>zs. zs" ?d Network ?s "[''n2'', ''n3'']" "''vpn-1''"
        "[asso ''n1'', asso ''n2'']" "[asso ''n1'', asso ''n2'']"]
  obtain evs where
    c: "calls (snd (handle_type memory_api (\<lambda>zs. zs) ?d Network ?s)) = calls ?s @ evs" and
    f: "data_associations ?d Network = Some [''n2'', ''n3''] \<and> bgpvpn_id ?d = Some ''vpn-1''
          \<and> association_list memory_api Network ''vpn-1'' (world ?s) =
              (Inr [asso ''n1'', asso ''n2''], [asso ''n1'', asso ''n2''])
          \<and> (\<exists>c \<in> set evs. is_delete c) \<longrightarrow>
         filter is_create evs =
           map (\<lambda>r. CreateCall Network ''vpn-1'' (set_params Network r))
             (to_add_associations (\<lambda>zs. zs) (map resource_id [asso ''n1'', asso ''n2''])
                [''n2'', ''n3''])"
    by blast
  have evs: "evs = ?tr"
    using c run by (simp add: start_def)
  have "\<exists>c \<in> set ?tr. is_delete c"
    by simp
  with f h1 h2 h3 evs have
    "filter is_create ?tr =
       map (\<lambda>r. CreateCall Network ''vpn-1'' (set_params Network r))
         (to_add_associations (\<lambda>zs. zs) (map resource_id [asso ''n1'', asso ''n2''])
            [''n2'', ''n3''])"
    by blast
  with h1 h2 h3 run show ?thesis
    by (intro conjI)
qed

section \<open>How many calls a reconciliation issues\<close>

lemma iteration_order_Nil: "is_iteration_order ord \<Longrightarrow> ord [] = []"
proof -
  assume "is_iteration_order ord"
  then have "mset (ord []) = mset []"
    by (simp only: is_iteration_order_def)
  then show ?thesis by simp
qed

lemma set_minus_list_Nil:
  "is_iteration_order ord \<Longrightarrow> set xs \<subseteq> set ys \<Longrightarrow> set_minus_list ord xs ys = []"
proof -
  assume o: "is_iteration_order ord" and "set xs \<subseteq> set ys"
  then have "filter (\<lambda>x. x \<notin> set ys) xs = []"
    by (auto simp: filter_empty_conv)
  with o show ?thesis
    by (simp add: set_minus_list_def iteration_order_Nil)
qed

lemma two_element_list:
  "distinct zs \<Longrightarrow> card (set zs) = 2 \<Longrightarrow> \<exists>x y. zs = [x, y] \<and> x \<noteq> y"
proof -
  assume d: "distinct zs" and "card (set zs) = 2"
  then have "length zs = 2"
    by (simp add: distinct_card)
  then obtain x y where "zs = [x, y]"
    by (cases zs; cases "tl zs") auto
  with d show ?thesis by auto
qed

lemma to_add_two:
  assumes "is_iteration_order ord" and "card (set desired) = 2"
  shows "\<exists>x y. to_add_associations ord [] desired = [x, y] \<and> x \<noteq> y \<and> set desired = {x, y}"
proof -
  have s: "set (to_add_associations ord [] desired) = set desired"
    using assms(1) by (simp add: to_add_associations_def set_minus_list_set)
  have d: "distinct (to_add_associations ord [] desired)"
    using assms(1) by (simp add: to_add_associations_def set_minus_list_distinct)
  from two_element_list [OF d] s assms(2) obtain x y where
    xy: "to_add_associations ord [] desired = [x, y]" "x \<noteq> y"
    by auto
  with s have "set desired = {x, y}" by auto
  with xy show ?thesis by blast
qed

text \<open>
  C7, as the code has it. When the ids listed for the VPN are the desired ids, the
  reconciliation issues the listing and nothing else: no create, no delete. When
  nothing is listed and two ids are desired, it issues the listing, a create for the
  first of them and, if that create returns, a create for the second; no delete
  either way. The first create raising ends the reconciliation after one create.
\<close>

theorem reconcile_call_counts:
  assumes "is_iteration_order ord" and "data_associations d ty = Some desired"
    and "bgpvpn_id d = Some bid"
    and "association_list a ty bid (world s) = (Inr current, w)"
  shows "(set (map resource_id current) = set desired \<longrightarrow>
            handle_type a ord d ty s =
              (Inr (), \<lparr>world = w, calls = calls s @ [ListCall ty bid]\<rparr>))
       \<and> (current = [] \<and> card (set desired) = 2 \<longrightarrow>
            (\<exists>x y. x \<noteq> y \<and> set desired = {x, y}
               \<and> calls (snd (handle_type a ord d ty s)) =
                   calls s @
                     (if isl (fst (association_create a ty bid (set_params ty x) w))
                      then [ListCall ty bid, CreateCall ty bid (set_params ty x)]
                      else [ListCall ty bid, CreateCall ty bid (set_params ty x),
                            CreateCall ty bid (set_params ty y)])))"
proof (intro conjI impI)
  assume e: "set (map resource_id current) = set desired"
  have "to_add_associations ord (map resource_id current) desired = []"
       "to_remove_associations ord (map resource_id current) desired = []"
    using assms(1) e
    by (simp_all add: to_add_associations_def to_remove_associations_def set_minus_list_Nil)
  then show "handle_type a ord d ty s =
              (Inr (), \<lparr>world = w, calls = calls s @ [ListCall ty bid]\<rparr>)"
    by (simp add: handle_type_listed [OF assms(2,3,4)])
next
  assume h: "current = [] \<and> card (set desired) = 2"
  from to_add_two [OF assms(1)] h obtain x y where
    xy: "to_add_associations ord [] desired = [x, y]" "x \<noteq> y" "set desired = {x, y}"
    by blast
  have rem: "to_remove_associations ord [] desired = []"
    using assms(1) by (simp add: to_remove_associations_def set_minus_list_Nil)
  have cur: "current = []"
    using h by simp
  let ?s1 = "\<lparr>world = w, calls = calls s @ [ListCall ty bid]\<rparr>"
  have ht: "handle_type a ord d ty s =
              (case add_associations a ty bid [x, y] ?s1 of
                 (Inl e, s2) \<Rightarrow> (Inl e, s2)
               | (Inr u, s2) \<Rightarrow> remove_associations a ty bid [] s2)"
    using handle_type_listed [OF assms(2,3,4), of ord]
    unfolding cur list.map xy(1) rem by assumption
  obtain r1 w1 where c1: "association_create a ty bid (set_params ty x) w = (r1, w1)"
    by (cases "association_create a ty bid (set_params ty x) w")
  have "calls (snd (handle_type a ord d ty s)) =
          calls s @
            (if isl (fst (association_create a ty bid (set_params ty x) w))
             then [ListCall ty bid, CreateCall ty bid (set_params ty x)]
             else [ListCall ty bid, CreateCall ty bid (set_params ty x),
                   CreateCall ty bid (set_params ty y)])"
  proof (cases r1)
    case (Inl e)
    with c1 show ?thesis
      by (simp add: ht create_asso_def handle_and_raise_def split: prod.splits sum.splits)
  next
    case (Inr u)
    obtain r2 w2 where c2: "association_create a ty bid (set_params ty y) w1 = (r2, w2)"
      by (cases "association_create a ty bid (set_params ty y) w1")
    with Inr c1 show ?thesis
      by (cases r2)
         (simp_all add: ht create_asso_def handle_and_raise_def split: prod.splits sum.splits)
  qed
  with xy show "\<exists>x y. x \<noteq> y \<and> set desired = {x, y}
               \<and> calls (snd (handle_type a ord d ty s)) =
                   calls s @
                     (if isl (fst (association_create a ty bid (set_params ty x) w))
                      then [ListCall ty bid, CreateCall ty bid (set_params ty x)]
                      else [ListCall ty bid, CreateCall ty bid (set_params ty x),
                            CreateCall ty bid (set_params ty y)])"
    by blast
qed

lemma memory_add_two:
  "handle_type memory_api (\<lambda>zs. zs) (networks_request [''n1'', ''n2'']) Network (start []) =
     (Inr (), \<lparr>world = [asso ''n1'', asso ''n2''],
               calls = [ListCall Network ''vpn-1'',
                        CreateCall Network ''vpn-1'' [(''network_id'', ''n1'')],
                        CreateCall Network ''vpn-1'' [(''network_id'', ''n2'')]]\<rparr>)"
  by (simp add: handle_type_def data_associations_def networks_request_def start_def
      list_method_def create_asso_def memory_api_def to_add_associations_def
      to_remove_associations_def set_minus_list_def set_params_def type_name_def asso_def)

theorem reconcile_call_counts_witness:
  "is_iteration_order (\<lambda>zs. zs)
   \<and> association_list memory_api Network ''vpn-1'' (world (start [asso ''n1''])) =
       (Inr [asso ''n1''], [asso ''n1''])
   \<and> set (map resource_id [asso ''n1'']) = set [''n1'']
   \<and> handle_type memory_api (\<lambda>zs. zs) (networks_request [''n1'']) Network (start [asso ''n1'']) =
       (Inr (), \<lparr>world = [asso ''n1''],
                 calls = calls (start [asso ''n1'']) @ [ListCall Network ''vpn-1'']\<rparr>)
   \<and> association_list memory_api Network ''vpn-1'' (world (start [])) = (Inr [], [])
   \<and> card (set [''n1'', ''n2'']) = 2
   \<and> (\<exists>x y. x \<noteq> y \<and> set [''n1'', ''n2''] = {x, y}
         \<and> calls (snd (handle_type memory_api (\<lambda>zs. zs) (networks_request [''n1'', ''n2''])
                         Network (start []))) =
             calls (start []) @
               (if isl (fst (association_create memory_api Network ''vpn-1''
                               (set_params Network x) []))
                then [ListCall Network ''vpn-1'',
                      CreateCall Network ''vpn-1'' (set_params Network x)]
                else [ListCall Network ''vpn-1'',
                      CreateCall Network ''vpn-1'' (set_params Network x),
                      CreateCall Network ''vpn-1'' (set_params Network y)]))
   \<and> calls (snd (handle_type memory_api (\<lambda>zs. zs) (networks_request [''n1'', ''n2''])
                   Network (start []))) =
       [ListCall Network ''vpn-1'',
        CreateCall Network ''vpn-1'' [(''network_id'', ''n1'')],
        CreateCall Network ''vpn-1'' [(''network_id'', ''n2'')]]"
proof -
  have o: "is_iteration_order (\<lambda>zs. zs)"
    by (simp add: is_iteration_order_def)
  have d1: "data_associations (networks_request [''n1'']) Network = Some [''n1'']"
    by (simp add: data_associations_def networks_request_def)
  have b1: "bgpvpn_id (networks_request [''n1'']) = Some ''vpn-1''"
    by (simp add: networks_request_def)
  have l1: "association_list memory_api Network ''vpn-1'' (world (start [asso ''n1''])) =
              (Inr [asso ''n1''], [asso ''n1''])"
    by (simp add: memory_api_def start_def)
  have e1: "set (map resource_id [asso ''n1'']) = set [''n1'']"
    by (simp add: asso_def)
  have d2: "data_associations (networks_request [''n1'', ''n2'']) Network = Some [''n1'', ''n2'']"
    by (simp add: data_associations_def networks_request_def)
  have b2: "bgpvpn_id (networks_request [''n1'', ''n2'']) = Some ''vpn-1''"
    by (simp add: networks_request_def)
  have l2: "association_list memory_api Network ''vpn-1'' (world (start [])) = (Inr [], [])"
    by (simp add: memory_api_def start_def)
  have c2: "card (set [''n1'', ''n2'']) = 2"
    by simp
  have 1: "handle_type memory_api (\<lambda>zs. zs) (networks_request [''n1'']) Network
             (start [asso ''n1'']) =
           (Inr (), \<lparr>world = [asso ''n1''],
                     calls = calls (start [asso ''n1'']) @ [ListCall Network ''vpn-1'']\<rparr>)"
    using reconcile_call_counts [OF o d1 b1 l1] e1 by blast
  have 2: "\<exists>x y. x \<noteq> y \<and> set [''n1'', ''n2''] = {x, y}
         \<and> calls (snd (handle_type memory_api (\<lambda>zs. zs) (networks_request [''n1'', ''n2''])
                         Network (start []))) =
             calls (start []) @
               (if isl (fst (association_create memory_api Network ''vpn-1''
                               (set_params Network x) []))
                then [ListCall Network ''vpn-1'',
                      CreateCall Network ''vpn-1'' (set_params Network x)]
                else [ListCall Network ''vpn-1'',
                      CreateCall Network ''vpn-1'' (set_params Network x),
                      CreateCall Network ''vpn-1'' (set_params Network y)])"
    using reconcile_call_counts [OF o d2 b2 l2] c2 by blast
  have 3: "calls (snd (handle_type memory_api (\<lambda>zs. zs) (networks_request [''n1'', ''n2''])
                   Network (start []))) =
       [ListCall Network ''vpn-1'',
        CreateCall Network ''vpn-1'' [(''network_id'', ''n1'')],
        CreateCall Network ''vpn-1'' [(''network_id'', ''n2'')]]"
    by (simp add: memory_add_two)
  show ?thesis
    by (rule conjI [OF o conjI [OF l1 conjI [OF e1 conjI [OF 1 conjI [OF l2 conjI [OF c2
          conjI [OF 2 3]]]]]]])
qed

text \<open>
  The claim as stated fails on a backend that refuses the create: nothing is listed,
  two ids are desired, and one create is issued, not two.
\<close>

theorem reconcile_call_counts_counterexample:
  "is_iteration_order (\<lambda>zs. zs)
   \<and> association_list refusing_api Network ''vpn-1'' (world (start [])) = (Inr [], [])
   \<and> data_associations (networks_request [''n1'', ''n2'']) Network = Some [''n1'', ''n2'']
   \<and> card (set [''n1'', ''n2'']) = 2
   \<and> calls (snd (handle_type refusing_api (\<lambda>zs. zs) (networks_request [''n1'', ''n2''])
                   Network (start []))) =
       [ListCall Network ''vpn-1'', CreateCall Network ''vpn-1'' [(''network_id'', ''n1'')]]
   \<and> length (filter is_create
        (calls (snd (handle_type refusing_api (\<lambda>zs. zs) (networks_request [''n1'', ''n2''])
                       Network (start []))))) \<noteq> 2"
  by (simp add: is_iteration_order_def handle_type_def data_associations_def
      networks_request_def start_def list_method_def create_asso_def memory_api_def
      refusing_api_def to_add_associations_def to_remove_associations_def set_minus_list_def
      set_params_def type_name_def handle_and_raise_def)

section \<open>Which exceptions leave handle\<close>

lemma key_error_Exception [simp]: "is_Exception (key_error k)"
  by (simp add: key_error_def)

lemma handle_and_raise_Exception:
  assumes "raises_Exception_only a" and "is_Exception e"
    and "fst (handle_and_raise a msg e s) = Inl e'"
  shows "is_Exception e'"
proof -
  obtain r w where h: "exceptions_handle a msg e (world s) = (r, w)"
    by (cases "exceptions_handle a msg e (world s)")
  show ?thesis
  proof (cases r)
    case (Inl x)
    with h assms(2,3) have "e' = x"
      by (simp add: handle_and_raise_def)
    moreover from h Inl have "fst (exceptions_handle a msg e (world s)) = Inl x"
      by simp
    ultimately show ?thesis
      using assms(1) unfolding raises_Exception_only_def by blast
  next
    case (Inr u)
    with h assms(2,3) have "e' = e"
      by (simp add: handle_and_raise_def)
    with assms(2) show ?thesis by simp
  qed
qed

lemma list_method_Exception:
  assumes "raises_Exception_only a" and "fst (list_method a ty bid s) = Inl e"
  shows "is_Exception e"
proof -
  from assms(2) have "fst (association_list a ty bid (world s)) = Inl e"
    by (simp add: list_method_def split: prod.splits)
  with assms(1) show ?thesis
    unfolding raises_Exception_only_def by blast
qed

lemma create_asso_Exception:
  assumes "raises_Exception_only a" and "fst (create_asso a ty bid ps s) = Inl e"
  shows "is_Exception e"
proof -
  from assms(2) have "fst (association_create a ty bid ps (world s)) = Inl e"
    by (simp add: create_asso_def split: prod.splits)
  with assms(1) show ?thesis
    unfolding raises_Exception_only_def by blast
qed

lemma delete_method_Exception:
  assumes "raises_Exception_only a" and "fst (delete_method a ty aid bid s) = Inl e"
  shows "is_Exception e"
proof -
  from assms(2) have "fst (association_delete a ty aid bid (world s)) = Inl e"
    by (simp add: delete_method_def split: prod.splits)
  with assms(1) show ?thesis
    unfolding raises_Exception_only_def by blast
qed

lemma add_associations_Exception:
  "raises_Exception_only a \<Longrightarrow> fst (add_associations a ty bid rs s) = Inl e \<Longrightarrow>
     is_Exception e"
proof (induction rs arbitrary: s)
  case Nil
  then show ?case by simp
next
  case (Cons r rs)
  obtain x s' where c: "create_asso a ty bid (set_params ty r) s = (x, s')"
    by (cases "create_asso a ty bid (set_params ty r) s")
  show ?case
  proof (cases x)
    case (Inl ex)
    with c have "is_Exception ex"
      using create_asso_Exception [OF Cons.prems(1), of ty bid "set_params ty r" s ex] by simp
    moreover from Inl c Cons.prems(2)
    have "fst (handle_and_raise a (associate_msg ty r ex) ex s') = Inl e"
      by simp
    ultimately show ?thesis
      using handle_and_raise_Exception [OF Cons.prems(1)] by blast
  next
    case (Inr u)
    with c Cons.prems(2) have "fst (add_associations a ty bid rs s') = Inl e"
      by simp
    with Cons.IH [OF Cons.prems(1)] show ?thesis by blast
  qed
qed

lemma delete_matching_Exception:
  "raises_Exception_only a \<Longrightarrow> fst (delete_matching a ty bid resource xs s) = Inl e \<Longrightarrow>
     is_Exception e"
proof (induction xs arbitrary: s)
  case Nil
  then show ?case by simp
next
  case (Cons x xs)
  show ?case
  proof (cases "resource_id x = resource")
    case False
    with Cons.prems(2) have "fst (delete_matching a ty bid resource xs s) = Inl e"
      by simp
    with Cons.IH [OF Cons.prems(1)] show ?thesis by blast
  next
    case True
    obtain r s' where d: "delete_method a ty (asso_id x) bid s = (r, s')"
      by (cases "delete_method a ty (asso_id x) bid s")
    show ?thesis
    proof (cases r)
      case (Inl ex)
      with True d Cons.prems(2) have "fst (delete_method a ty (asso_id x) bid s) = Inl e"
        by simp
      then show ?thesis
        by (rule delete_method_Exception [OF Cons.prems(1)])
    next
      case (Inr u)
      with True d Cons.prems(2) have "fst (delete_matching a ty bid resource xs s') = Inl e"
        by simp
      with Cons.IH [OF Cons.prems(1)] show ?thesis by blast
    qed
  qed
qed

lemma remove_resource_Exception:
  assumes r: "raises_Exception_only a"
    and h: "fst (remove_resource a ty bid resource s) = Inl e"
  shows "is_Exception e"
proof -
  obtain x s1 where l: "list_method a ty bid s = (x, s1)"
    by (cases "list_method a ty bid s")
  show ?thesis
  proof (cases x)
    case (Inl ex)
    with l have "is_Exception ex"
      using list_method_Exception [OF r, of ty bid s ex] by simp
    moreover from Inl l h have "fst (handle_and_raise a (disassociate_msg ty) ex s1) = Inl e"
      by (simp add: remove_resource_def)
    ultimately show ?thesis
      using handle_and_raise_Exception [OF r] by blast
  next
    case (Inr asso_list)
    obtain y s2 where d: "delete_matching a ty bid resource asso_list s1 = (y, s2)"
      by (cases "delete_matching a ty bid resource asso_list s1")
    show ?thesis
    proof (cases y)
      case (Inl ex)
      with d have "is_Exception ex"
        using delete_matching_Exception [OF r, of ty bid resource asso_list s1 ex] by simp
      moreover from Inl d Inr l h
      have "fst (handle_and_raise a (disassociate_msg ty) ex s2) = Inl e"
        by (simp add: remove_resource_def)
      ultimately show ?thesis
        using handle_and_raise_Exception [OF r] by blast
    next
      case (Inr u)
      with d \<open>x = Inr asso_list\<close> l h show ?thesis
        by (simp add: remove_resource_def)
    qed
  qed
qed

lemma remove_associations_Exception:
  "raises_Exception_only a \<Longrightarrow> fst (remove_associations a ty bid rs s) = Inl e \<Longrightarrow>
     is_Exception e"
proof (induction rs arbitrary: s)
  case Nil
  then show ?case by simp
next
  case (Cons r rs)
  obtain x s' where rr: "remove_resource a ty bid r s = (x, s')"
    by (cases "remove_resource a ty bid r s")
  show ?case
  proof (cases x)
    case (Inl ex)
    with rr Cons.prems(2) have "fst (remove_resource a ty bid r s) = Inl e"
      by simp
    then show ?thesis
      by (rule remove_resource_Exception [OF Cons.prems(1)])
  next
    case (Inr u)
    with rr Cons.prems(2) have "fst (remove_associations a ty bid rs s') = Inl e"
      by simp
    with Cons.IH [OF Cons.prems(1)] show ?thesis by blast
  qed
qed

lemma handle_type_Exception:
  assumes r: "raises_Exception_only a" and h: "fst (handle_type a ord d ty s) = Inl e"
  shows "is_Exception e"
proof (cases "data_associations d ty")
  case None
  with h have "e = key_error (type_name ty @ ''s_association'')"
    by (simp add: handle_type_def)
  then show ?thesis by simp
next
  case (Some desired)
  note des = this
  show ?thesis
  proof (cases "bgpvpn_id d")
    case None
    with des h have
      "fst (handle_and_raise a (retrieve_msg ty) (key_error ''bgpvpn_id'') s) = Inl e"
      by (simp add: handle_type_def)
    then show ?thesis
      using handle_and_raise_Exception [OF r key_error_Exception] by blast
  next
    case (Some bid)
    note b = this
    obtain x w where l: "association_list a ty bid (world s) = (x, w)"
      by (cases "association_list a ty bid (world s)")
    show ?thesis
    proof (cases x)
      case (Inl ex)
      from l Inl have "fst (association_list a ty bid (world s)) = Inl ex"
        by simp
      with r have "is_Exception ex"
        unfolding raises_Exception_only_def by blast
      moreover from des b l Inl h have
        "fst (handle_and_raise a (retrieve_msg ty) ex
                \<lparr>world = w, calls = calls s @ [ListCall ty bid]\<rparr>) = Inl e"
        by (simp add: handle_type_def list_method_result)
      ultimately show ?thesis
        using handle_and_raise_Exception [OF r] by blast
    next
      case (Inr current)
      let ?s1 = "\<lparr>world = w, calls = calls s @ [ListCall ty bid]\<rparr>"
      let ?add = "to_add_associations ord (map resource_id current) desired"
      let ?rem = "to_remove_associations ord (map resource_id current) desired"
      have ht: "handle_type a ord d ty s =
                  (case add_associations a ty bid ?add ?s1 of
                     (Inl e, s2) \<Rightarrow> (Inl e, s2)
                   | (Inr u, s2) \<Rightarrow> remove_associations a ty bid ?rem s2)"
        using handle_type_listed [OF des b] l Inr by simp
      obtain y s2 where ad: "add_associations a ty bid ?add ?s1 = (y, s2)"
        by (cases "add_associations a ty bid ?add ?s1")
      show ?thesis
      proof (cases y)
        case (Inl ex)
        with ht ad h have "fst (add_associations a ty bid ?add ?s1) = Inl e"
          by simp
        then show ?thesis
          by (rule add_associations_Exception [OF r])
      next
        case (Inr u)
        with ht ad h have "fst (remove_associations a ty bid ?rem s2) = Inl e"
          by simp
        then show ?thesis
          by (rule remove_associations_Exception [OF r])
      qed
    qed
  qed
qed

lemma handle_try_Exception:
  assumes r: "raises_Exception_only a" and h: "fst (handle_try a ord d s) = Inl e"
  shows "is_Exception e"
proof -
  obtain x s1 where n: "handle_type a ord d Network s = (x, s1)"
    by (cases "handle_type a ord d Network s")
  have tn: "fst (handle_type a ord d Network s) = Inl e' \<Longrightarrow> is_Exception e'" for e'
    by (rule handle_type_Exception [OF r])
  have tr: "fst (handle_type a ord d Router s') = Inl e' \<Longrightarrow> is_Exception e'" for e' s'
    by (rule handle_type_Exception [OF r])
  obtain y s2 where r1: "handle_type a ord d Router s = (y, s2)"
    by (cases "handle_type a ord d Router s")
  obtain z s3 where r2: "handle_type a ord d Router s1 = (z, s3)"
    by (cases "handle_type a ord d Router s1")
  from h n r1 r2 tn [of e] tr [of s e] tr [of s1 e] show ?thesis
    by (auto simp: handle_try_def handle_networks_def handle_routers_def
          split: sum.splits prod.splits if_splits)
qed

text \<open>
  C9, as the code has it. \<^verbatim>\<open>handle\<close> returns \<^verbatim>\<open>False\<close> for every instance of
  \<^verbatim>\<open>Exception\<close> raised in its body, in the state the body left: an exception of the
  network reconciliation, one of the router reconciliation, and the one raised when
  no association type is in the request. An exception that is not an instance of
  \<^verbatim>\<open>Exception\<close> leaves \<^verbatim>\<open>handle\<close> unchanged. So when the collaborators raise instances
  of \<^verbatim>\<open>Exception\<close> only, \<^verbatim>\<open>handle\<close> always returns a boolean.
\<close>

theorem handle_catches_Exception:
  "(fst (handle_try a ord d s) = Inl e \<and> is_Exception e \<longrightarrow>
      handle a ord d s = (Inr False, snd (handle_try a ord d s)))
   \<and> (fst (handle_try a ord d s) = Inl e \<and> \<not> is_Exception e \<longrightarrow>
        handle a ord d s = (Inl e, snd (handle_try a ord d s)))
   \<and> (\<not> isl (fst (handle_try a ord d s)) \<longrightarrow>
        handle a ord d s = (Inr True, snd (handle_try a ord d s)))
   \<and> (networks_association d \<noteq> None \<and> fst (handle_type a ord d Network s) = Inl e
        \<and> is_Exception e \<longrightarrow>
        handle a ord d s = (Inr False, snd (handle_type a ord d Network s)))
   \<and> (networks_association d = None \<and> routers_association d \<noteq> None
        \<and> fst (handle_type a ord d Router s) = Inl e \<and> is_Exception e \<longrightarrow>
        handle a ord d s = (Inr False, snd (handle_type a ord d Router s)))
   \<and> (networks_association d \<noteq> None \<and> \<not> isl (fst (handle_type a ord d Network s))
        \<and> routers_association d \<noteq> None
        \<and> fst (handle_type a ord d Router (snd (handle_type a ord d Network s))) = Inl e
        \<and> is_Exception e \<longrightarrow>
        handle a ord d s =
          (Inr False, snd (handle_type a ord d Router (snd (handle_type a ord d Network s)))))
   \<and> (networks_association d = None \<and> routers_association d = None \<longrightarrow>
        handle a ord d s = (Inr False, s))
   \<and> (raises_Exception_only a \<longrightarrow> (\<exists>b. fst (handle a ord d s) = Inr b))"
proof (intro conjI impI)
  assume "fst (handle_try a ord d s) = Inl e \<and> is_Exception e"
  then show "handle a ord d s = (Inr False, snd (handle_try a ord d s))"
    by (cases "handle_try a ord d s") (simp add: handle_def)
next
  assume "fst (handle_try a ord d s) = Inl e \<and> \<not> is_Exception e"
  then show "handle a ord d s = (Inl e, snd (handle_try a ord d s))"
    by (cases "handle_try a ord d s") (simp add: handle_def)
next
  assume "\<not> isl (fst (handle_try a ord d s))"
  then show "handle a ord d s = (Inr True, snd (handle_try a ord d s))"
    by (cases "handle_try a ord d s") (auto simp: handle_def split: sum.splits)
next
  assume "networks_association d \<noteq> None \<and> fst (handle_type a ord d Network s) = Inl e
        \<and> is_Exception e"
  then show "handle a ord d s = (Inr False, snd (handle_type a ord d Network s))"
    by (cases "handle_type a ord d Network s")
       (auto simp: handle_def handle_try_def handle_networks_def)
next
  assume "networks_association d = None \<and> routers_association d \<noteq> None
        \<and> fst (handle_type a ord d Router s) = Inl e \<and> is_Exception e"
  then show "handle a ord d s = (Inr False, snd (handle_type a ord d Router s))"
    by (cases "handle_type a ord d Router s")
       (auto simp: handle_def handle_try_def handle_networks_def handle_routers_def)
next
  assume "networks_association d \<noteq> None \<and> \<not> isl (fst (handle_type a ord d Network s))
        \<and> routers_association d \<noteq> None
        \<and> fst (handle_type a ord d Router (snd (handle_type a ord d Network s))) = Inl e
        \<and> is_Exception e"
  then show "handle a ord d s =
          (Inr False, snd (handle_type a ord d Router (snd (handle_type a ord d Network s))))"
    by (cases "handle_type a ord d Network s";
        cases "handle_type a ord d Router (snd (handle_type a ord d Network s))")
       (auto simp: handle_def handle_try_def handle_networks_def handle_routers_def
          split: sum.splits)
next
  assume "networks_association d = None \<and> routers_association d = None"
  then show "handle a ord d s = (Inr False, s)"
    by (simp add: handle_def handle_try_def handle_networks_def handle_routers_def)
next
  assume r: "raises_Exception_only a"
  have "\<forall>e. fst (handle_try a ord d s) = Inl e \<longrightarrow> is_Exception e"
    using handle_try_Exception [OF r] by blast
  then show "\<exists>b. fst (handle a ord d s) = Inr b"
    by (simp add: handle_fst_Exception)
qed

lemma interrupted_try_n1:
  "handle_try interrupted_api (\<lambda>zs. zs) (networks_request [''n1'']) (start []) =
     (Inl (BaseExn ''KeyboardInterrupt'' []),
      \<lparr>world = [], calls = [ListCall Network ''vpn-1'']\<rparr>)"
  by (simp add: handle_try_def handle_networks_def handle_type_def data_associations_def
      networks_request_def start_def list_method_def memory_api_def interrupted_api_def
      handle_and_raise_def)

theorem handle_catches_Exception_witness:
  "is_Exception (Exn ''Conflict'' ''refused'')
   \<and> handle refusing_api (\<lambda>zs. zs) (networks_request [''n1'']) (start []) =
       (Inr False,
        \<lparr>world = [],
         calls = [ListCall Network ''vpn-1'',
                  CreateCall Network ''vpn-1'' [(''network_id'', ''n1'')]]\<rparr>)
   \<and> \<not> is_Exception (BaseExn ''KeyboardInterrupt'' [])
   \<and> handle interrupted_api (\<lambda>zs. zs) (networks_request [''n1'']) (start []) =
       (Inl (BaseExn ''KeyboardInterrupt'' []),
        \<lparr>world = [], calls = [ListCall Network ''vpn-1'']\<rparr>)
   \<and> handle memory_api (\<lambda>zs. zs) empty_request (start []) = (Inr False, start [])
   \<and> raises_Exception_only refusing_api
   \<and> (\<exists>b. fst (handle refusing_api (\<lambda>zs. zs) (networks_request [''n1'']) (start [])) = Inr b)"
proof -
  let ?d = "networks_request [''n1'']"
  have i1: "is_Exception (Exn ''Conflict'' ''refused'')"
    by simp
  have i2: "\<not> is_Exception (BaseExn ''KeyboardInterrupt'' [])"
    by simp
  have t1: "fst (handle_try refusing_api (\<lambda>zs. zs) ?d (start [])) =
              Inl (Exn ''Conflict'' ''refused'')"
    by (simp add: refusing_try_n1)
  have t2: "fst (handle_try interrupted_api (\<lambda>zs. zs) ?d (start [])) =
              Inl (BaseExn ''KeyboardInterrupt'' [])"
    by (simp add: interrupted_try_n1)
  have e: "networks_association empty_request = None \<and> routers_association empty_request = None"
    by (simp add: empty_request_def)
  have ro: "raises_Exception_only refusing_api"
    by (simp add: raises_Exception_only_def refusing_api_def memory_api_def)
  have 1: "handle refusing_api (\<lambda>zs. zs) ?d (start []) =
       (Inr False,
        \<lparr>world = [],
         calls = [ListCall Network ''vpn-1'',
                  CreateCall Network ''vpn-1'' [(''network_id'', ''n1'')]]\<rparr>)"
    using handle_catches_Exception
      [of refusing_api "\<lambda>zs. zs" ?d "start []" "Exn ''Conflict'' ''refused''"] t1 i1
    by (simp add: refusing_try_n1)
  have 2: "handle interrupted_api (\<lambda>zs. zs) ?d (start []) =
       (Inl (BaseExn ''KeyboardInterrupt'' []),
        \<lparr>world = [], calls = [ListCall Network ''vpn-1'']\<rparr>)"
    using handle_catches_Exception
      [of interrupted_api "\<lambda>zs. zs" ?d "start []" "BaseExn ''KeyboardInterrupt'' []"] t2 i2
    by (simp add: interrupted_try_n1)
  have 3: "handle memory_api (\<lambda>zs. zs) empty_request (start []) = (Inr False, start [])"
    using handle_catches_Exception [of memory_api "\<lambda>zs. zs" empty_request "start []"] e
    by blast
  have 4: "\<exists>b. fst (handle refusing_api (\<lambda>zs. zs) ?d (start [])) = Inr b"
    using handle_catches_Exception [of refusing_api "\<lambda>zs. zs" ?d "start []"] ro
    by blast
  show ?thesis
    by (rule conjI [OF i1 conjI [OF 1 conjI [OF i2 conjI [OF 2 conjI [OF 3 conjI [OF ro 4]]]]]])
qed

text \<open>
  The claim as stated fails when the listing is interrupted from the keyboard:
  \<^verbatim>\<open>KeyboardInterrupt\<close> is not an instance of \<^verbatim>\<open>Exception\<close>, and it leaves \<^verbatim>\<open>handle\<close>
  instead of becoming \<^verbatim>\<open>False\<close>.
\<close>

theorem handle_catches_Exception_counterexample:
  "fst (association_list interrupted_api Network ''vpn-1'' []) =
     Inl (BaseExn ''KeyboardInterrupt'' [])
   \<and> handle interrupted_api (\<lambda>zs. zs) (networks_request [''n1'']) (start []) =
       (Inl (BaseExn ''KeyboardInterrupt'' []),
        \<lparr>world = [], calls = [ListCall Network ''vpn-1'']\<rparr>)
   \<and> fst (handle interrupted_api (\<lambda>zs. zs) (networks_request [''n1'']) (start [])) \<noteq> Inr False"
  by (simp add: handle_def handle_try_def handle_networks_def handle_type_def
      data_associations_def networks_request_def start_def list_method_def memory_api_def
      interrupted_api_def handle_and_raise_def)

end
